theory Spec2Isabelle
  imports Complex_Main "HOL-Library.Word"
begin

section \<open>Values, vectors and matrices\<close>

text \<open>
  \<^verbatim>\<open>size_t\<close> is a 64-bit unsigned integer: \<^verbatim>\<open>size_t() - 1\<close> wraps to the largest
  value. Loop counters and dimensions never leave the range of a container's size and
  are natural numbers; the entries of \<^verbatim>\<open>arma::Mat<size_t>\<close>,
  \<^verbatim>\<open>arma::Col<size_t>\<close> and \<^verbatim>\<open>std::vector<size_t>\<close> are words.
\<close>

type_synonym size_t = "64 word"

text \<open>
  What goes wrong when the code steps outside a container or follows a null pointer.
  Armadillo checks element and column indices and throws; \<^verbatim>\<open>std::vector::operator[]\<close>
  and a null dereference are undefined behaviour. Both are failures of the model, as are
  an integer division by zero, the maximum of an empty vector, and an archive that does
  not hold the value being loaded.
\<close>

datatype error = IndexOutOfBounds | NullPointer | DivideByZero | EmptyObject | ArchiveError

definition bindE :: "error + 'a \<Rightarrow> ('a \<Rightarrow> error + 'b) \<Rightarrow> error + 'b" where
  "bindE r f = (case r of Inl e \<Rightarrow> Inl e | Inr x \<Rightarrow> f x)"

text \<open>A \<^verbatim>\<open>for\<close> loop over the given index values whose body may fail.\<close>

fun for_each :: "nat list \<Rightarrow> (nat \<Rightarrow> 's \<Rightarrow> error + 's) \<Rightarrow> 's \<Rightarrow> error + 's" where
  "for_each [] body s = Inr s"
| "for_each (i # is) body s = bindE (body i s) (for_each is body)"

text \<open>\<^verbatim>\<open>v[i]\<close> on a \<^verbatim>\<open>std::vector\<close> or an Armadillo vector.\<close>

definition vec_at :: "'a list \<Rightarrow> nat \<Rightarrow> error + 'a" where
  "vec_at v i = (if i < length v then Inr (v ! i) else Inl IndexOutOfBounds)"


text \<open>
  An Armadillo matrix, stored by columns (a point is a column): the number of rows and
  the list of columns. \<open>wf_mat\<close> says that every column has \<open>n_rows\<close> entries.
\<close>

datatype 'a mat = Mat (n_rows: nat) (cols: "'a list list")

definition n_cols :: "'a mat \<Rightarrow> nat" where
  "n_cols m = length (cols m)"

definition wf_mat :: "'a mat \<Rightarrow> bool" where
  "wf_mat m = list_all (\<lambda>c. length c = n_rows m) (cols m)"

text \<open>
  \<^verbatim>\<open>m.set_size(r, c)\<close>: nothing happens when the matrix has that size already;
  otherwise the matrix gets that size and its entries are whatever the memory holds,
  given here by \<open>raw\<close> (row, then column).
\<close>

definition set_size :: "(nat \<Rightarrow> nat \<Rightarrow> 'a) \<Rightarrow> nat \<Rightarrow> nat \<Rightarrow> 'a mat \<Rightarrow> 'a mat" where
  "set_size raw r c m =
     (if n_rows m = r \<and> n_cols m = c then m
      else Mat r (map (\<lambda>i. map (\<lambda>j. raw j i) [0..<r]) [0..<c]))"

definition fill_mat :: "'a \<Rightarrow> 'a mat \<Rightarrow> 'a mat" where
  "fill_mat v m = Mat (n_rows m) (map (map (\<lambda>_. v)) (cols m))"

text \<open>\<^verbatim>\<open>m(j, i)\<close>, \<^verbatim>\<open>m.col(i)\<close> read, then written.\<close>

definition elem_at :: "'a mat \<Rightarrow> nat \<Rightarrow> nat \<Rightarrow> error + 'a" where
  "elem_at m j i =
     (if j < n_rows m \<and> i < n_cols m \<and> j < length (cols m ! i) then Inr (cols m ! i ! j)
      else Inl IndexOutOfBounds)"

definition col_of :: "'a mat \<Rightarrow> nat \<Rightarrow> error + 'a list" where
  "col_of m i = (if i < n_cols m then Inr (cols m ! i) else Inl IndexOutOfBounds)"

definition set_elem :: "'a mat \<Rightarrow> nat \<Rightarrow> nat \<Rightarrow> 'a \<Rightarrow> error + 'a mat" where
  "set_elem m j i x =
     (if j < n_rows m \<and> i < n_cols m \<and> j < length (cols m ! i)
      then Inr (Mat (n_rows m) ((cols m)[i := (cols m ! i)[j := x]]))
      else Inl IndexOutOfBounds)"

definition set_col :: "'a mat \<Rightarrow> nat \<Rightarrow> 'a list \<Rightarrow> error + 'a mat" where
  "set_col m i c =
     (if i < n_cols m \<and> length c = n_rows m then Inr (Mat (n_rows m) ((cols m)[i := c]))
      else Inl IndexOutOfBounds)"

section \<open>The rank-approximate search engine\<close>

subsection \<open>Trees and the engine's fields\<close>

text \<open>
  A tree node as the engine sees it: its statistic, the dataset it indexes, its metric
  and its children. The type of the distance values (\<^verbatim>\<open>double\<close>) is a parameter:
  the engine only stores, copies and fills them.
\<close>

datatype 'd RAQueryStat = RAQueryStat (Bound: 'd) (NumSamplesMade: size_t)

datatype ('d, 'm) tree =
  Tree (Stat: "'d RAQueryStat") (Dataset: "'d mat") (Metric: 'm) (Children: "('d, 'm) tree list")

definition NumChildren :: "('d, 'm) tree \<Rightarrow> nat" where
  "NumChildren t = length (Children t)"

definition IsLeaf :: "('d, 'm) tree \<Rightarrow> bool" where
  "IsLeaf t = (NumChildren t = 0)"

text \<open>
  \<^verbatim>\<open>referenceSet\<close> is a pointer: to a matrix of its own (the caller's, or one the
  engine loaded), or to the dataset inside \<^verbatim>\<open>referenceTree\<close>.
\<close>

datatype 'a set_ptr = PtrMatrix 'a | PtrTreeDataset

record ('d, 'm) RASearch =
  oldFromNewReferences :: "size_t list"
  referenceTree :: "('d, 'm) tree option"
  referenceSet :: "'d mat set_ptr"
  treeOwner :: bool
  setOwner :: bool
  naive :: bool
  singleMode :: bool
  tau :: 'd
  alpha :: 'd
  sampleAtLeaves :: bool
  firstLeafExact :: bool
  singleSampleLimit :: size_t
  metric :: 'm

definition deref_tree :: "('d, 'm) RASearch \<Rightarrow> error + ('d, 'm) tree" where
  "deref_tree e = (case referenceTree e of None \<Rightarrow> Inl NullPointer | Some t \<Rightarrow> Inr t)"

definition deref_set :: "('d, 'm) RASearch \<Rightarrow> error + 'd mat" where
  "deref_set e =
     (case referenceSet e of
        PtrMatrix m \<Rightarrow> Inr m
      | PtrTreeDataset \<Rightarrow> bindE (deref_tree e) (\<lambda>t. Inr (Dataset t)))"

subsection \<open>What the engine calls but does not define\<close>

text \<open>
  The rules object (\<^verbatim>\<open>RASearchRules\<close>) holds references to the two output matrices
  and writes the candidates into them; it has private counters, and it draws from the
  global random source. \<open>rstate\<close> is everything a call on the rules object or a
  traverser can read and change: the matrix \<^verbatim>\<open>neighborPtr\<close> points to, the one
  \<^verbatim>\<open>distancePtr\<close> points to, the private part and the random source.
\<close>

record ('d, 'x, 'g) rstate =
  nbrs :: "size_t mat"
  dists :: "'d mat"
  priv :: 'x
  rng :: 'g

text \<open>
  The tree type, the sort policy, the sampling utilities, the rules object and the two
  traversers are template parameters and headers of their own; the engine is
  parametric in them. A tree constructor that takes the dataset by non-const reference
  (\<open>TreeCtorMapping\<close>) also returns the state it leaves the caller's matrix in. The dual
  traverser is given two tree objects, or one object twice (\<open>DualTraverseSelf\<close>); the
  traversers may change the node statistics of the trees they walk.
\<close>

record ('d, 'm, 'x, 'g) ext =
  RearrangesDataset :: bool
  WorstDistance :: 'd
  TreeCtorMapping :: "'d mat \<Rightarrow> ('d, 'm) tree \<times> size_t list \<times> 'd mat"
  TreeCtor :: "'d mat \<Rightarrow> ('d, 'm) tree"
  MinimumSamplesReqd :: "nat \<Rightarrow> nat \<Rightarrow> 'd \<Rightarrow> 'd \<Rightarrow> nat"
  ObtainDistinctSamples :: "nat \<Rightarrow> nat \<Rightarrow> 'g \<Rightarrow> nat list \<times> 'g"
  RASearchRules :: "'d mat \<Rightarrow> 'd mat \<Rightarrow> size_t mat \<Rightarrow> 'd mat \<Rightarrow> ('d, 'm) RASearch
                     \<Rightarrow> bool \<Rightarrow> 'g \<Rightarrow> ('d, 'x, 'g) rstate"
  BaseCase :: "nat \<Rightarrow> nat \<Rightarrow> ('d, 'x, 'g) rstate \<Rightarrow> ('d, 'x, 'g) rstate"
  SingleTraverse :: "nat \<Rightarrow> ('d, 'm) tree \<Rightarrow> ('d, 'x, 'g) rstate
                     \<Rightarrow> ('d, 'x, 'g) rstate \<times> ('d, 'm) tree"
  DualTraverse :: "('d, 'm) tree \<Rightarrow> ('d, 'm) tree \<Rightarrow> ('d, 'x, 'g) rstate
                     \<Rightarrow> ('d, 'x, 'g) rstate \<times> ('d, 'm) tree \<times> ('d, 'm) tree"
  DualTraverseSelf :: "('d, 'm) tree \<Rightarrow> ('d, 'x, 'g) rstate
                     \<Rightarrow> ('d, 'x, 'g) rstate \<times> ('d, 'm) tree"

text \<open>
  \<^verbatim>\<open>aux::BuildTree\<close>: the tree constructor that does mapping when the tree type
  rearranges its dataset, the one that does not otherwise. The result is the tree, the
  \<^verbatim>\<open>oldFromNew\<close> vector afterwards and the caller's dataset afterwards; the second
  overload takes both by const reference.
\<close>

definition BuildTree ::
  "('d, 'm, 'x, 'g) ext \<Rightarrow> 'd mat \<Rightarrow> size_t list \<Rightarrow> ('d, 'm) tree \<times> size_t list \<times> 'd mat" where
  "BuildTree env dataset oldFromNew =
     (if RearrangesDataset env then TreeCtorMapping env dataset
      else (TreeCtor env dataset, oldFromNew, dataset))"

subsection \<open>Construction\<close>

text \<open>
  \<^verbatim>\<open>RASearch(referenceSetIn, naive, singleMode, tau, alpha, sampleAtLeaves,
  firstLeafExact, singleSampleLimit, metric)\<close>. The result is the engine and the caller's
  reference matrix afterwards (the constructor casts its constness away for
  \<^verbatim>\<open>BuildTree\<close>).
\<close>

definition RASearch_of_set ::
  "('d, 'm, 'x, 'g) ext \<Rightarrow> 'd mat \<Rightarrow> bool \<Rightarrow> bool \<Rightarrow> 'd \<Rightarrow> 'd \<Rightarrow> bool \<Rightarrow> bool \<Rightarrow> size_t \<Rightarrow> 'm
     \<Rightarrow> ('d, 'm) RASearch \<times> 'd mat" where
  "RASearch_of_set env referenceSetIn naive_in singleMode_in tau_in alpha_in sampleAtLeaves_in
       firstLeafExact_in singleSampleLimit_in metric_in =
     (let built = (if naive_in then None else Some (BuildTree env referenceSetIn []))
      in (\<lparr> oldFromNewReferences = (case built of None \<Rightarrow> [] | Some (t, ofn, d) \<Rightarrow> ofn),
            referenceTree = (case built of None \<Rightarrow> None | Some (t, ofn, d) \<Rightarrow> Some t),
            referenceSet = (if naive_in then PtrMatrix referenceSetIn else PtrTreeDataset),
            treeOwner = (\<not> naive_in),
            setOwner = False,
            naive = naive_in,
            singleMode = (\<not> naive_in \<and> singleMode_in),
            tau = tau_in,
            alpha = alpha_in,
            sampleAtLeaves = sampleAtLeaves_in,
            firstLeafExact = firstLeafExact_in,
            singleSampleLimit = singleSampleLimit_in,
            metric = metric_in \<rparr>,
          (case built of None \<Rightarrow> referenceSetIn | Some (t, ofn, d) \<Rightarrow> d)))"

text \<open>
  \<^verbatim>\<open>RASearch(referenceTree, singleMode, tau, alpha, sampleAtLeaves, firstLeafExact,
  singleSampleLimit, metric)\<close>: the caller's tree. A pointer argument is taken to
  point to an object; only the engine's own \<^verbatim>\<open>referenceTree\<close> field can be null.
\<close>

definition RASearch_of_tree ::
  "('d, 'm) tree \<Rightarrow> bool \<Rightarrow> 'd \<Rightarrow> 'd \<Rightarrow> bool \<Rightarrow> bool \<Rightarrow> size_t \<Rightarrow> 'm \<Rightarrow> ('d, 'm) RASearch" where
  "RASearch_of_tree referenceTree_in singleMode_in tau_in alpha_in sampleAtLeaves_in
       firstLeafExact_in singleSampleLimit_in metric_in =
     \<lparr> oldFromNewReferences = [],
       referenceTree = Some referenceTree_in,
       referenceSet = PtrTreeDataset,
       treeOwner = False,
       setOwner = False,
       naive = False,
       singleMode = singleMode_in,
       tau = tau_in,
       alpha = alpha_in,
       sampleAtLeaves = sampleAtLeaves_in,
       firstLeafExact = firstLeafExact_in,
       singleSampleLimit = singleSampleLimit_in,
       metric = metric_in \<rparr>"

subsection \<open>Searching\<close>

text \<open>
  What a \<^verbatim>\<open>Search\<close> call issues to the rules object and the traversers is recorded,
  in order, as a list of events next to the state: the arguments of every
  \<^verbatim>\<open>BaseCase\<close> call, and the trees every traversal starts from.
\<close>

datatype ('d, 'm) event =
  CallBaseCase nat nat
| CallSingleTraverse nat "('d, 'm) tree"
| CallDualTraverse "('d, 'm) tree" "('d, 'm) tree"

text \<open>
  The contents of newly acquired matrix memory, per allocation of a call (numbered in
  program order), row and column. They are an input of the model: the code does not
  determine them.
\<close>

record 'd uninit =
  raw_idx :: "nat \<Rightarrow> nat \<Rightarrow> nat \<Rightarrow> size_t"
  raw_dbl :: "nat \<Rightarrow> nat \<Rightarrow> nat \<Rightarrow> 'd"

text \<open>
  What the caller has after a call that returns: the two output matrices, the query
  matrix and the query tree it passed (when the entry point takes one), the engine, the
  random source, and the events.
\<close>

record ('d, 'm, 'g) returned =
  neighbors_out :: "size_t mat"
  distances_out :: "'d mat"
  querySet_out :: "'d mat option"
  queryTree_out :: "('d, 'm) tree option"
  engine_out :: "('d, 'm) RASearch"
  rng_out :: 'g
  calls :: "('d, 'm) event list"

text \<open>
  A call returns, or throws \<^verbatim>\<open>std::invalid_argument\<close> (the caller's two output
  matrices as they are at that moment), or fails as \<open>error\<close> describes.
\<close>

datatype ('d, 'm, 'g) outcome =
  Returned "('d, 'm, 'g) returned"
| Threw_invalid_argument "size_t mat" "'d mat"
| Failed error

definition call_BaseCase ::
  "('d, 'm, 'x, 'g) ext \<Rightarrow> nat \<Rightarrow> nat \<Rightarrow> ('d, 'x, 'g) rstate \<times> ('d, 'm) event list
     \<Rightarrow> ('d, 'x, 'g) rstate \<times> ('d, 'm) event list" where
  "call_BaseCase env i j = (\<lambda>(r, tr). (BaseCase env i j r, tr @ [CallBaseCase i j]))"

definition call_SingleTraverse ::
  "('d, 'm, 'x, 'g) ext \<Rightarrow> nat \<Rightarrow> ('d, 'x, 'g) rstate \<times> ('d, 'm) tree \<times> ('d, 'm) event list
     \<Rightarrow> ('d, 'x, 'g) rstate \<times> ('d, 'm) tree \<times> ('d, 'm) event list" where
  "call_SingleTraverse env i =
     (\<lambda>(r, t, tr). case SingleTraverse env i t r of (r', t') \<Rightarrow> (r', t', tr @ [CallSingleTraverse i t]))"

text \<open>
  The final pass of \<^verbatim>\<open>Search(querySet, k, neighbors, distances)\<close> when both query
  and reference indices are mapped: the loops over the columns \<open>i\<close> and the rows \<open>j\<close>
  of \<^verbatim>\<open>distances\<close>, reading the temporary matrices \<open>nP\<close> and \<open>dP\<close>.
\<close>

definition map_both ::
  "size_t list \<Rightarrow> size_t list \<Rightarrow> size_t mat \<Rightarrow> 'd mat \<Rightarrow> size_t mat \<times> 'd mat
     \<Rightarrow> error + (size_t mat \<times> 'd mat)" where
  "map_both oldFromNewQueries oldFromNewRefs nP dP =
     (\<lambda>(neighbors, distances).
        for_each [0..<n_cols distances]
          (\<lambda>i (neighbors, distances).
             bindE (vec_at oldFromNewQueries i) (\<lambda>q.
             bindE (col_of dP i) (\<lambda>c.
             bindE (set_col distances (unat q) c) (\<lambda>distances'.
             bindE (for_each [0..<n_rows distances']
                      (\<lambda>j neighbors.
                         bindE (elem_at nP j i) (\<lambda>v.
                         bindE (vec_at oldFromNewRefs (unat v)) (\<lambda>r.
                         bindE (vec_at oldFromNewQueries i) (\<lambda>q'.
                           set_elem neighbors j (unat q') r))))
                      neighbors) (\<lambda>neighbors'.
               Inr (neighbors', distances'))))))
          (neighbors, distances))"

text \<open>The same pass when only query indices are mapped: whole columns are copied.\<close>

definition map_queries ::
  "size_t list \<Rightarrow> size_t mat \<Rightarrow> 'd mat \<Rightarrow> size_t mat \<times> 'd mat \<Rightarrow> error + (size_t mat \<times> 'd mat)" where
  "map_queries oldFromNewQueries nP dP =
     (\<lambda>(neighbors, distances).
        for_each [0..<n_cols distances]
          (\<lambda>i (neighbors, distances).
             bindE (vec_at oldFromNewQueries i) (\<lambda>queryMapping.
             bindE (col_of dP i) (\<lambda>c.
             bindE (set_col distances (unat queryMapping) c) (\<lambda>distances'.
             bindE (col_of nP i) (\<lambda>c'.
             bindE (set_col neighbors (unat queryMapping) c') (\<lambda>neighbors'.
               Inr (neighbors', distances')))))))
          (neighbors, distances))"

text \<open>
  The pass when only reference indices are mapped; the query-tree entry point ends with
  the same loops.
\<close>

definition map_references :: "size_t list \<Rightarrow> size_t mat \<Rightarrow> size_t mat \<Rightarrow> error + size_t mat" where
  "map_references oldFromNewRefs nP neighbors =
     for_each [0..<n_cols neighbors]
       (\<lambda>i neighbors.
          for_each [0..<n_rows neighbors]
            (\<lambda>j neighbors.
               bindE (elem_at nP j i) (\<lambda>v.
               bindE (vec_at oldFromNewRefs (unat v)) (\<lambda>r.
                 set_elem neighbors j i r)))
            neighbors)
       neighbors"

text \<open>
  The final pass of \<^verbatim>\<open>Search(k, neighbors, distances)\<close>: the query points are the
  reference points, so the columns move through the reference map as well.
\<close>

definition map_self ::
  "size_t list \<Rightarrow> size_t mat \<Rightarrow> 'd mat \<Rightarrow> size_t mat \<times> 'd mat \<Rightarrow> error + (size_t mat \<times> 'd mat)" where
  "map_self oldFromNewRefs nP dP =
     (\<lambda>(neighbors, distances).
        for_each [0..<n_cols distances]
          (\<lambda>i (neighbors, distances).
             bindE (vec_at oldFromNewRefs i) (\<lambda>refMapping.
             bindE (col_of dP i) (\<lambda>c.
             bindE (set_col distances (unat refMapping) c) (\<lambda>distances'.
             bindE (for_each [0..<n_rows distances']
                      (\<lambda>j neighbors.
                         bindE (elem_at nP j i) (\<lambda>v.
                         bindE (vec_at oldFromNewRefs (unat v)) (\<lambda>r.
                           set_elem neighbors j (unat refMapping) r)))
                      neighbors) (\<lambda>neighbors'.
               Inr (neighbors', distances'))))))
          (neighbors, distances))"

text \<open>
  \<^verbatim>\<open>Search(querySet, k, neighbors, distances)\<close>, in the three parts of its body.
  First the matrices \<^verbatim>\<open>neighborPtr\<close> and \<^verbatim>\<open>distancePtr\<close> point to (the caller's,
  or new empty ones), sized and, for the distances, filled.
\<close>

definition Search_tempD :: "('d, 'm, 'x, 'g) ext \<Rightarrow> ('d, 'm) RASearch \<Rightarrow> bool" where
  "Search_tempD env e = (RearrangesDataset env \<and> \<not> singleMode e \<and> \<not> naive e)"

definition Search_tempN :: "('d, 'm, 'x, 'g) ext \<Rightarrow> ('d, 'm) RASearch \<Rightarrow> bool" where
  "Search_tempN env e = (RearrangesDataset env \<and> ((\<not> singleMode e \<and> \<not> naive e) \<or> treeOwner e))"

definition Search_prepare ::
  "('d, 'm, 'x, 'g) ext \<Rightarrow> 'd uninit \<Rightarrow> ('d, 'm) RASearch \<Rightarrow> 'd mat \<Rightarrow> nat \<Rightarrow> size_t mat \<Rightarrow> 'd mat
     \<Rightarrow> size_t mat \<times> 'd mat" where
  "Search_prepare env un e querySet k neighbors distances =
     (set_size (raw_idx un 0) k (n_cols querySet)
        (if Search_tempN env e then Mat 0 [] else neighbors),
      fill_mat (WorstDistance env)
        (set_size (raw_dbl un 1) k (n_cols querySet)
           (if Search_tempD env e then Mat 0 [] else distances)))"

text \<open>
  Then the search proper, by mode. The result is the rules object's state, the events,
  \<^verbatim>\<open>oldFromNewQueries\<close>, the caller's query matrix and the engine. The log lines
  divide the number of distance computations by \<^verbatim>\<open>querySet.n_cols\<close>.
\<close>

definition Search_run ::
  "('d, 'm, 'x, 'g) ext \<Rightarrow> ('d, 'm) RASearch \<Rightarrow> 'g \<Rightarrow> 'd mat \<Rightarrow> nat \<Rightarrow> size_t mat \<Rightarrow> 'd mat
     \<Rightarrow> error + (('d, 'x, 'g) rstate \<times> ('d, 'm) event list \<times> size_t list \<times> 'd mat
                 \<times> ('d, 'm) RASearch)" where
  "Search_run env e rng0 querySet k nP dP =
     (if naive e then
        bindE (deref_set e) (\<lambda>refs.
          let rules = RASearchRules env refs querySet nP dP e False rng0;
              numSamples = MinimumSamplesReqd env (n_cols refs) k (tau e) (alpha e)
          in case ObtainDistinctSamples env numSamples (n_cols refs) (rng rules) of
               (distinctSamples, g) \<Rightarrow>
                 (case fold (\<lambda>i. fold (\<lambda>j. call_BaseCase env i (distinctSamples ! j))
                                   [0..<length distinctSamples])
                         [0..<n_cols querySet] (rules\<lparr>rng := g\<rparr>, []) of
                    (rules', tr) \<Rightarrow> Inr (rules', tr, [], querySet, e)))
      else if singleMode e then
        bindE (deref_set e) (\<lambda>refs.
          let rules = RASearchRules env refs querySet nP dP e False rng0
          in bindE (deref_tree e) (\<lambda>rt.
               if \<not> IsLeaf rt then
                 (case fold (call_SingleTraverse env) [0..<n_cols querySet] (rules, rt, []) of
                    (rules', rt', tr) \<Rightarrow>
                      if n_cols querySet = 0 then Inl DivideByZero
                      else Inr (rules', tr, [], querySet, e\<lparr>referenceTree := Some rt'\<rparr>))
               else Inr (rules, [], [], querySet, e)))
      else
        (case BuildTree env querySet [] of
           (queryTree, oldFromNewQueries, querySet') \<Rightarrow>
             bindE (deref_set e) (\<lambda>refs.
               let rules = RASearchRules env refs (Dataset queryTree) nP dP e False rng0
               in bindE (deref_tree e) (\<lambda>rt.
                    case DualTraverse env queryTree rt rules of
                      (rules', queryTree', rt') \<Rightarrow>
                        if n_cols querySet' = 0 then Inl DivideByZero
                        else Inr (rules', [CallDualTraverse queryTree rt], oldFromNewQueries,
                                  querySet', e\<lparr>referenceTree := Some rt'\<rparr>)))))"

text \<open>
  Last the mapping back to original indices, from the temporary matrices \<open>nP\<close> and
  \<open>dP\<close> into the caller's \<open>neighbors\<close> and \<open>distances\<close>.
\<close>

definition Search_finish ::
  "('d, 'm, 'x, 'g) ext \<Rightarrow> 'd uninit \<Rightarrow> ('d, 'm) RASearch \<Rightarrow> nat \<Rightarrow> nat \<Rightarrow> size_t list
     \<Rightarrow> size_t mat \<Rightarrow> 'd mat \<Rightarrow> size_t mat \<Rightarrow> 'd mat \<Rightarrow> error + (size_t mat \<times> 'd mat)" where
  "Search_finish env un e k nq oldFromNewQueries nP dP neighbors distances =
     (if RearrangesDataset env then
        if \<not> singleMode e \<and> \<not> naive e \<and> treeOwner e then
          map_both oldFromNewQueries (oldFromNewReferences e) nP dP
            (set_size (raw_idx un 2) k nq neighbors, set_size (raw_dbl un 3) k nq distances)
        else if \<not> singleMode e \<and> \<not> naive e then
          map_queries oldFromNewQueries nP dP
            (set_size (raw_idx un 2) k nq neighbors, set_size (raw_dbl un 3) k nq distances)
        else if treeOwner e then
          bindE (map_references (oldFromNewReferences e) nP (set_size (raw_idx un 2) k nq neighbors))
            (\<lambda>neighbors'. Inr (neighbors', distances))
        else Inr (neighbors, distances)
      else Inr (neighbors, distances))"

definition Search ::
  "('d, 'm, 'x, 'g) ext \<Rightarrow> 'd uninit \<Rightarrow> ('d, 'm) RASearch \<Rightarrow> 'g \<Rightarrow> 'd mat \<Rightarrow> nat \<Rightarrow> size_t mat \<Rightarrow> 'd mat
     \<Rightarrow> ('d, 'm, 'g) outcome" where
  "Search env un e rng0 querySet k neighbors distances =
     (case Search_prepare env un e querySet k neighbors distances of
        (nP, dP) \<Rightarrow>
          (case Search_run env e rng0 querySet k nP dP of
             Inl err \<Rightarrow> Failed err
           | Inr (rules, tr, oldFromNewQueries, querySet', e') \<Rightarrow>
               (case Search_finish env un e k (n_cols querySet') oldFromNewQueries
                       (nbrs rules) (dists rules)
                       (if Search_tempN env e then neighbors else nbrs rules)
                       (if Search_tempD env e then distances else dists rules) of
                  Inl err \<Rightarrow> Failed err
                | Inr (neighbors', distances') \<Rightarrow>
                    Returned \<lparr> neighbors_out = neighbors', distances_out = distances',
                               querySet_out = Some querySet', queryTree_out = None,
                               engine_out = e', rng_out = rng rules, calls = tr \<rparr>)))"

text \<open>
  \<^verbatim>\<open>Search(queryTree, k, neighbors, distances)\<close>: the mode check, the matrices, the
  dual-tree traversal, and the mapping of reference indices.
\<close>

definition Search_tree_prepare ::
  "('d, 'm, 'x, 'g) ext \<Rightarrow> 'd uninit \<Rightarrow> ('d, 'm) RASearch \<Rightarrow> ('d, 'm) tree \<Rightarrow> nat \<Rightarrow> size_t mat
     \<Rightarrow> 'd mat \<Rightarrow> size_t mat \<times> 'd mat" where
  "Search_tree_prepare env un e queryTree k neighbors distances =
     (fill_mat (0 - 1)
        (set_size (raw_idx un 0) k (n_cols (Dataset queryTree))
           (if treeOwner e \<and> RearrangesDataset env then Mat 0 [] else neighbors)),
      fill_mat (WorstDistance env)
        (set_size (raw_dbl un 1) k (n_cols (Dataset queryTree)) distances))"

definition Search_tree ::
  "('d, 'm, 'x, 'g) ext \<Rightarrow> 'd uninit \<Rightarrow> ('d, 'm) RASearch \<Rightarrow> 'g \<Rightarrow> ('d, 'm) tree \<Rightarrow> nat \<Rightarrow> size_t mat
     \<Rightarrow> 'd mat \<Rightarrow> ('d, 'm, 'g) outcome" where
  "Search_tree env un e rng0 queryTree k neighbors distances =
     (let querySet = Dataset queryTree
      in if singleMode e \<or> naive e then Threw_invalid_argument neighbors distances
         else
           (case Search_tree_prepare env un e queryTree k neighbors distances of
              (nP, distances0) \<Rightarrow>
                (case bindE (deref_set e) (\<lambda>refs.
                        let rules = RASearchRules env refs (Dataset queryTree) nP distances0 e False rng0
                        in bindE (deref_tree e) (\<lambda>rt.
                             case DualTraverse env queryTree rt rules of
                               (rules', queryTree', rt') \<Rightarrow>
                                 bindE (if treeOwner e \<and> RearrangesDataset env
                                        then map_references (oldFromNewReferences e) (nbrs rules')
                                               (set_size (raw_idx un 2) k (n_cols querySet) neighbors)
                                        else Inr (nbrs rules')) (\<lambda>neighbors'.
                                   Inr \<lparr> neighbors_out = neighbors', distances_out = dists rules',
                                         querySet_out = None, queryTree_out = Some queryTree',
                                         engine_out = e\<lparr>referenceTree := Some rt'\<rparr>,
                                         rng_out = rng rules',
                                         calls = [CallDualTraverse queryTree rt] \<rparr>))) of
                   Inl err \<Rightarrow> Failed err
                 | Inr out \<Rightarrow> Returned out)))"

text \<open>
  \<^verbatim>\<open>Search(k, neighbors, distances)\<close>: the reference set is the query set.
\<close>

definition Search_self_prepare ::
  "('d, 'm, 'x, 'g) ext \<Rightarrow> 'd uninit \<Rightarrow> ('d, 'm) RASearch \<Rightarrow> nat \<Rightarrow> nat \<Rightarrow> size_t mat \<Rightarrow> 'd mat
     \<Rightarrow> size_t mat \<times> 'd mat" where
  "Search_self_prepare env un e n k neighbors distances =
     (fill_mat (0 - 1)
        (set_size (raw_idx un 0) k n
           (if RearrangesDataset env \<and> treeOwner e then Mat 0 [] else neighbors)),
      fill_mat (WorstDistance env)
        (set_size (raw_dbl un 1) k n
           (if RearrangesDataset env \<and> treeOwner e then Mat 0 [] else distances)))"

definition Search_self_run ::
  "('d, 'm, 'x, 'g) ext \<Rightarrow> ('d, 'm) RASearch \<Rightarrow> nat \<Rightarrow> 'd mat \<Rightarrow> ('d, 'x, 'g) rstate
     \<Rightarrow> error + (('d, 'x, 'g) rstate \<times> ('d, 'm) event list \<times> ('d, 'm) RASearch)" where
  "Search_self_run env e k refs rules =
     (if naive e then
        (let numSamples = MinimumSamplesReqd env (n_cols refs) k (tau e) (alpha e)
         in case ObtainDistinctSamples env numSamples (n_cols refs) (rng rules) of
              (distinctSamples, g) \<Rightarrow>
                (case fold (\<lambda>i. fold (\<lambda>j. call_BaseCase env i j) [0..<n_cols refs])
                        [0..<n_cols refs] (rules\<lparr>rng := g\<rparr>, []) of
                   (rules', tr) \<Rightarrow> Inr (rules', tr, e)))
      else if singleMode e then
        bindE (deref_tree e) (\<lambda>rt.
          case fold (call_SingleTraverse env) [0..<n_cols refs] (rules, rt, []) of
            (rules', rt', tr) \<Rightarrow> Inr (rules', tr, e\<lparr>referenceTree := Some rt'\<rparr>))
      else
        bindE (deref_tree e) (\<lambda>rt.
          case DualTraverseSelf env rt rules of
            (rules', rt') \<Rightarrow>
              Inr (rules', [CallDualTraverse rt rt], e\<lparr>referenceTree := Some rt'\<rparr>)))"

definition Search_self ::
  "('d, 'm, 'x, 'g) ext \<Rightarrow> 'd uninit \<Rightarrow> ('d, 'm) RASearch \<Rightarrow> 'g \<Rightarrow> nat \<Rightarrow> size_t mat \<Rightarrow> 'd mat
     \<Rightarrow> ('d, 'm, 'g) outcome" where
  "Search_self env un e rng0 k neighbors distances =
     (case deref_set e of
        Inl err \<Rightarrow> Failed err
      | Inr refs \<Rightarrow>
          (case Search_self_prepare env un e (n_cols refs) k neighbors distances of
             (nP, dP) \<Rightarrow>
               (case Search_self_run env e k refs
                       (RASearchRules env refs refs nP dP e True rng0) of
                  Inl err \<Rightarrow> Failed err
                | Inr (rules, tr, e') \<Rightarrow>
                    (case (if treeOwner e \<and> RearrangesDataset env
                           then map_self (oldFromNewReferences e) (nbrs rules) (dists rules)
                                  (set_size (raw_idx un 2) k (n_cols refs) neighbors,
                                   set_size (raw_dbl un 3) k (n_cols refs) distances)
                           else Inr (nbrs rules, dists rules)) of
                       Inl err \<Rightarrow> Failed err
                     | Inr (neighbors', distances') \<Rightarrow>
                         Returned \<lparr> neighbors_out = neighbors', distances_out = distances',
                                    querySet_out = None, queryTree_out = None,
                                    engine_out = e', rng_out = rng rules, calls = tr \<rparr>))))"

subsection \<open>Resetting the statistics of a query tree\<close>




subsection \<open>Serialization\<close>

text \<open>
  An archive is the sequence of named values written to it. \<^verbatim>\<open>ar & CreateNVP(x, name)\<close>
  appends \<open>x\<close> under \<open>name\<close> when saving and reads the next value into \<open>x\<close> when
  loading; loading fails when the next value is not of \<open>x\<close>'s type. A pointer is saved
  as the object it points to and loaded as a pointer to a new object. The
  \<^verbatim>\<open>delete\<close> statements free memory and change no field.
\<close>

datatype ('d, 'm) field =
  FBool bool
| FDouble 'd
| FSize size_t
| FMat "'d mat"
| FMetric 'm
| FTree "('d, 'm) tree"
| FVec "size_t list"

type_synonym ('d, 'm) archive = "(string \<times> ('d, 'm) field) list"



fun load_bool :: "('d, 'm) archive \<Rightarrow> error + (bool \<times> ('d, 'm) archive)" where
  "load_bool ((name, FBool b) # ar) = Inr (b, ar)"
| "load_bool ar = Inl ArchiveError"

fun load_double :: "('d, 'm) archive \<Rightarrow> error + ('d \<times> ('d, 'm) archive)" where
  "load_double ((name, FDouble x) # ar) = Inr (x, ar)"
| "load_double ar = Inl ArchiveError"

fun load_size :: "('d, 'm) archive \<Rightarrow> error + (size_t \<times> ('d, 'm) archive)" where
  "load_size ((name, FSize x) # ar) = Inr (x, ar)"
| "load_size ar = Inl ArchiveError"






section \<open>Reseeding an empty cluster: \<^verbatim>\<open>MaxVarianceNewCluster\<close>\<close>

text \<open>
  Values of type \<^verbatim>\<open>double\<close> are real numbers here: rounding is not modelled, and
  where the code would produce an infinity or a NaN (a division by zero) the model's
  number means nothing. \<^verbatim>\<open>infinity()\<close> as the start of a running minimum is
  \<open>None\<close>. The metric is the function \<open>Evaluate\<close> on two columns.
\<close>

definition DBL_MAX :: real where
  "DBL_MAX = (2 ^ 53 - 1) * 2 ^ 971"







text \<open>
  \<^verbatim>\<open>EmptyCluster(data, emptyCluster, oldCentroids, newCentroids, clusterCounts, metric,
  iteration)\<close>. The result is the returned number, the object, and the two arguments
  passed by non-const reference.
\<close>




section \<open>Notions the properties are stated with\<close>

text \<open>A matrix of \<open>r\<close> rows and \<open>c\<close> columns.\<close>

definition has_size :: "nat \<Rightarrow> nat \<Rightarrow> 'a mat \<Rightarrow> bool" where
  "has_size r c m = (n_rows m = r \<and> n_cols m = c \<and> wf_mat m)"

text \<open>
  An old-from-new vector over \<open>n\<close> points: one entry per new position, each an original
  position, no original position twice.
\<close>

definition is_relocation :: "nat \<Rightarrow> size_t list \<Rightarrow> bool" where
  "is_relocation n oldFromNew =
     (length oldFromNew = n \<and> list_all (\<lambda>q. unat q < n) oldFromNew \<and> distinct oldFromNew)"

text \<open>Every entry of an index matrix is a position of the vector \<open>v\<close>.\<close>

definition indexes_into :: "'b list \<Rightarrow> size_t mat \<Rightarrow> bool" where
  "indexes_into v m = list_all (list_all (\<lambda>x. unat x < length v)) (cols m)"

text \<open>The reference indices of the \<^verbatim>\<open>BaseCase\<close> calls for query \<open>i\<close>, in order.\<close>

fun BaseCase_refs :: "nat \<Rightarrow> ('d, 'm) event list \<Rightarrow> nat list" where
  "BaseCase_refs i [] = []"
| "BaseCase_refs i (CallBaseCase q r # tr) = (if q = i then r # BaseCase_refs i tr else BaseCase_refs i tr)"
| "BaseCase_refs i (CallSingleTraverse q t # tr) = BaseCase_refs i tr"
| "BaseCase_refs i (CallDualTraverse t t' # tr) = BaseCase_refs i tr"


text \<open>The outputs of a call that returned.\<close>

definition neighbors_of :: "('d, 'm, 'g) outcome \<Rightarrow> size_t mat option" where
  "neighbors_of r = (case r of Returned out \<Rightarrow> Some (neighbors_out out) | _ \<Rightarrow> None)"

definition distances_of :: "('d, 'm, 'g) outcome \<Rightarrow> 'd mat option" where
  "distances_of r = (case r of Returned out \<Rightarrow> Some (distances_out out) | _ \<Rightarrow> None)"

definition calls_of :: "('d, 'm, 'g) outcome \<Rightarrow> ('d, 'm) event list option" where
  "calls_of r = (case r of Returned out \<Rightarrow> Some (calls out) | _ \<Rightarrow> None)"




text \<open>
  Modelled from the spec: the constructor of the spatial tree
  (\<^verbatim>\<open>TreeType(dataset, oldFromNew)\<close>), which is not among the repository's files. The spec
  describes the tree as holding "a possibly-permuted copy of the input points with an
  old-to-new index map" (new position to original position) over a point set that is an
  "immutable matrix of points". \<open>order\<close> is the permutation the tree chooses and \<open>shape\<close>
  the nodes it builds over its copy; the third component is the caller's matrix
  afterwards.
\<close>

definition SpatialTree_ctor ::
  "('d mat \<Rightarrow> nat list) \<Rightarrow> ('d mat \<Rightarrow> ('d, 'm) tree) \<Rightarrow> 'd mat
     \<Rightarrow> ('d, 'm) tree \<times> size_t list \<times> 'd mat" where
  "SpatialTree_ctor order shape dataset =
     (shape (Mat (n_rows dataset) (map (\<lambda>i. cols dataset ! i) (order dataset))),
      map word_of_nat (order dataset),
      dataset)"

section \<open>A small instance\<close>

text \<open>
  An instance of the external parts on which the properties below are evaluated:
  one-dimensional points, the absolute difference as distance, nearest-neighbour order
  with \<open>DBL_MAX\<close> as worst distance, a tree constructor that stores the points in reverse
  order under a root with one leaf, traversers that visit every pair and count in the
  query root's statistic, and candidate lists kept sorted by insertion.
\<close>

definition demo_insert :: "real \<Rightarrow> size_t \<Rightarrow> (real \<times> size_t) list \<Rightarrow> (real \<times> size_t) list" where
  "demo_insert d j cands =
     take (length cands) (takeWhile (\<lambda>c. fst c \<le> d) cands @ (d, j) # dropWhile (\<lambda>c. fst c \<le> d) cands)"

definition demo_BaseCase ::
  "nat \<Rightarrow> nat \<Rightarrow> (real, real mat \<times> real mat \<times> bool, nat) rstate
     \<Rightarrow> (real, real mat \<times> real mat \<times> bool, nat) rstate" where
  "demo_BaseCase i j r =
     (case priv r of
        (refs, queries, sameSet) \<Rightarrow>
          if sameSet \<and> i = j then r
          else
            (let d = \<bar>hd (cols queries ! i) - hd (cols refs ! j)\<bar>;
                 cands = demo_insert d (word_of_nat j) (zip (cols (dists r) ! i) (cols (nbrs r) ! i))
             in r\<lparr> nbrs := Mat (n_rows (nbrs r)) ((cols (nbrs r))[i := map snd cands]),
                    dists := Mat (n_rows (dists r)) ((cols (dists r))[i := map fst cands]) \<rparr>))"

definition demo_bump :: "(real, unit) tree \<Rightarrow> (real, unit) tree" where
  "demo_bump t =
     Tree (RAQueryStat (Bound (Stat t)) (NumSamplesMade (Stat t) + 1)) (Dataset t) (Metric t) (Children t)"

definition demo_tree :: "size_t \<Rightarrow> real mat \<Rightarrow> (real, unit) tree" where
  "demo_tree made d = Tree (RAQueryStat DBL_MAX made) d () [Tree (RAQueryStat DBL_MAX 0) d () []]"

definition demo_env :: "bool \<Rightarrow> (real, unit, real mat \<times> real mat \<times> bool, nat) ext" where
  "demo_env rearranges =
     \<lparr> RearrangesDataset = rearranges,
       WorstDistance = DBL_MAX,
       TreeCtorMapping = SpatialTree_ctor (\<lambda>d. rev [0..<n_cols d]) (demo_tree 0),
       TreeCtor = demo_tree 0,
       MinimumSamplesReqd = (\<lambda>n k t a. min n k),
       ObtainDistinctSamples = (\<lambda>m n g. (map (\<lambda>s. (g + s) mod n) [0..<min m n], Suc g)),
       RASearchRules = (\<lambda>refs queries nb ds e sameSet g.
                          \<lparr> nbrs = nb, dists = ds, priv = (refs, queries, sameSet), rng = g \<rparr>),
       BaseCase = demo_BaseCase,
       SingleTraverse = (\<lambda>i t r. (fold (demo_BaseCase i) [0..<n_cols (Dataset t)] r, t)),
       DualTraverse = (\<lambda>q t r. (fold (\<lambda>i. fold (demo_BaseCase i) [0..<n_cols (Dataset t)])
                                     [0..<n_cols (Dataset q)] r, demo_bump q, t)),
       DualTraverseSelf = (\<lambda>t r. (fold (\<lambda>i. fold (demo_BaseCase i) [0..<n_cols (Dataset t)])
                                     [0..<n_cols (Dataset t)] r, demo_bump t)) \<rparr>"

definition demo_uninit :: "size_t \<Rightarrow> real uninit" where
  "demo_uninit v = \<lparr> raw_idx = (\<lambda>a j i. v), raw_dbl = (\<lambda>a j i. 0) \<rparr>"

definition demo_refs :: "real mat" where
  "demo_refs = Mat 1 [[0], [1], [2], [100]]"

definition demo_queries :: "real mat" where
  "demo_queries = Mat 1 [[3 / 2], [3]]"

definition demo_engine :: "bool \<Rightarrow> bool \<Rightarrow> bool \<Rightarrow> (real, unit) RASearch" where
  "demo_engine rearranges nv sm =
     fst (RASearch_of_set (demo_env rearranges) demo_refs nv sm (1 / 2) (95 / 100) False False 20 ())"



definition demo_one_engine :: "(real, unit) RASearch" where
  "demo_one_engine =
     fst (RASearch_of_set (demo_env False) (Mat 1 [[0]]) True False (1 / 2) (95 / 100) False False 20 ())"

text \<open>
  Two reference points for an engine that builds a rearranging tree over them, in
  dual-tree mode.
\<close>

definition demo_pair :: "real mat" where
  "demo_pair = Mat 1 [[0], [1]]"

definition demo_pair_engine :: "(real, unit) RASearch" where
  "demo_pair_engine =
     fst (RASearch_of_set (demo_env True) demo_pair False False (1 / 2) (95 / 100) False False 20 ())"

text \<open>
  Modelled from the spec: the probability that \<open>m\<close> points drawn without replacement
  from \<open>n\<close> hit at least one of the \<open>t\<close> best-ranked points, which is one minus the
  fraction of the \<open>m\<close>-subsets that miss all of them.
\<close>

definition hit_probability :: "nat \<Rightarrow> nat \<Rightarrow> nat \<Rightarrow> real" where
  "hit_probability n t m = 1 - real ((n - t) choose m) / real (n choose m)"

text \<open>
  Modelled from the spec: \<^verbatim>\<open>RAUtil::MinimumSamplesReqd\<close>, which the engine calls and
  the source file does not define. The spec has it as "the smallest sample size m such
  that, sampling m points uniformly without replacement from a population of size n,
  the probability of hitting at least one of the top-\<open>\<lceil>\<tau> n\<rceil>\<close> ranked points is at least
  alpha", clamped to the population size, and all points when \<open>\<tau> n < 1\<close>, when
  \<open>\<alpha> \<ge> 1\<close> or when \<open>k\<close> exceeds the population size. \<open>\<tau>\<close> is a percentage of the
  population: the spec's scenario has \<open>\<tau> = 0.5\<close> on four points fall back to all
  points, which is the case of less than one best-ranked point.
\<close>

definition MinimumSamplesRequired :: "nat \<Rightarrow> nat \<Rightarrow> real \<Rightarrow> real \<Rightarrow> nat" where
  "MinimumSamplesRequired n k t a =
     (if t * real n / 100 < 1 \<or> 1 \<le> a \<or> n < k then n
      else case find (\<lambda>m. a \<le> hit_probability n (nat \<lceil>t * real n / 100\<rceil>) m) [0..<n] of
             Some m \<Rightarrow> m
           | None \<Rightarrow> n)"

text \<open>
  The instance with this sample count, and a naive engine over the four reference
  points with \<open>\<tau> = 50\<close> and \<open>\<alpha> = 2/5\<close>: two of the four points are best-ranked, and
  one draw hits one of them with probability \<open>1/2\<close>.
\<close>

definition sampling_env :: "(real, unit, real mat \<times> real mat \<times> bool, nat) ext" where
  "sampling_env = (demo_env False)\<lparr> MinimumSamplesReqd := MinimumSamplesRequired \<rparr>"

definition sampling_engine :: "(real, unit) RASearch" where
  "sampling_engine = fst (RASearch_of_set sampling_env demo_refs True False 50 (2 / 5) False False 20 ())"










section \<open>Loops over matrices\<close>

lemma bindE_Inr [simp]: "bindE (Inr x) f = f x"
  by (simp add: bindE_def)

lemma bindE_Inl [simp]: "bindE (Inl e) f = Inl e"
  by (simp add: bindE_def)

lemma for_each_append: "for_each (xs @ ys) body s = bindE (for_each xs body s) (for_each ys body)"
  by (induction xs arbitrary: s) (auto simp: bindE_def split: sum.splits)

lemma for_each_upt_rule:
  assumes "I 0 s0"
    and "\<And>i s. i < n \<Longrightarrow> I i s \<Longrightarrow> \<exists>s'. body i s = Inr s' \<and> I (Suc i) s'"
  shows "\<exists>s'. for_each [0..<n] body s0 = Inr s' \<and> I n s'"
  using assms(2)
proof (induction n)
  case 0
  then show ?case using assms(1) by simp
next
  case (Suc n)
  then obtain s1 where s1: "for_each [0..<n] body s0 = Inr s1" "I n s1"
    by (metis less_Suc_eq)
  from Suc.prems [of n s1] s1 obtain s2 where "body n s1 = Inr s2" "I (Suc n) s2"
    by auto
  with s1 show ?case
    by (simp add: for_each_append)
qed

lemma has_size_update:
  assumes "has_size k n m" "length c = k"
  shows "has_size k n (Mat k ((cols m)[q := c]))"
proof -
  have "set ((cols m)[q := c]) \<subseteq> insert c (set (cols m))"
    by (rule set_update_subset_insert)
  with assms show ?thesis
    by (auto simp: has_size_def wf_mat_def n_cols_def list_all_iff)
qed

lemma has_size_col:
  "has_size k n m \<Longrightarrow> i < n \<Longrightarrow> length (cols m ! i) = k"
  by (auto simp: has_size_def wf_mat_def n_cols_def list_all_iff)

lemma has_size_set_size:
  "wf_mat m \<Longrightarrow> has_size k n (set_size raw k n m)"
  by (auto simp: has_size_def set_size_def wf_mat_def n_cols_def list_all_iff)

lemma has_size_fill: "has_size k n m \<Longrightarrow> has_size k n (fill_mat v m)"
  by (auto simp: has_size_def fill_mat_def wf_mat_def n_cols_def list_all_iff)

lemma wf_mat_empty: "wf_mat (Mat 0 [])"
  by (simp add: wf_mat_def)

lemma splice_step:
  assumes "j < length m" "length m = length old"
  shows "(take j m @ drop j old)[j := m ! j] = take (Suc j) m @ drop (Suc j) old"
  using assms
  by (intro nth_equalityI) (auto simp: nth_append nth_list_update min_def less_Suc_eq)

lemma relocate_column:
  assumes nb: "has_size k n nb" and q: "q < n"
    and nP: "has_size k n' nP" and i: "i < n'"
    and valid: "\<forall>j<k. unat (cols nP ! i ! j) < length R"
  shows "for_each [0..<k]
           (\<lambda>j nb. bindE (elem_at nP j i) (\<lambda>v. bindE (vec_at R (unat v)) (\<lambda>r. set_elem nb j q r))) nb
         = Inr (Mat k ((cols nb)[q := map (\<lambda>v. R ! unat v) (cols nP ! i)]))"
proof -
  let ?m = "map (\<lambda>v. R ! unat v) (cols nP ! i)"
  let ?old = "cols nb ! q"
  let ?I = "\<lambda>j s. s = Mat k ((cols nb)[q := take j ?m @ drop j ?old])"
  let ?body = "\<lambda>j nb. bindE (elem_at nP j i) (\<lambda>v. bindE (vec_at R (unat v)) (\<lambda>r. set_elem nb j q r))"
  have lm: "length ?m = k" using nP i by (simp add: has_size_col)
  have lo: "length ?old = k" using nb q by (simp add: has_size_col)
  have qn: "q < length (cols nb)" using nb q by (simp add: has_size_def n_cols_def)
  have init: "?I 0 nb"
    using nb by (cases nb) (simp add: has_size_def)
  have step: "\<exists>s'. ?body j s = Inr s' \<and> ?I (Suc j) s'" if "j < k" "?I j s" for j s
  proof -
    have rd: "elem_at nP j i = Inr (cols nP ! i ! j)"
      using nP i that(1) has_size_col [OF nP i] by (simp add: elem_at_def has_size_def)
    have vd: "vec_at R (unat (cols nP ! i ! j)) = Inr (R ! unat (cols nP ! i ! j))"
      using valid that(1) by (simp add: vec_at_def)
    have mj: "?m ! j = R ! unat (cols nP ! i ! j)"
      using that(1) lm by simp
    have "(take j ?m @ drop j ?old)[j := ?m ! j] = take (Suc j) ?m @ drop (Suc j) ?old"
      using that(1) lm lo by (intro splice_step) simp_all
    then show ?thesis
      using that rd vd qn lm lo mj
      by (simp add: set_elem_def n_cols_def)
  qed
  from for_each_upt_rule [of ?I nb k ?body, OF init step]
  show ?thesis using lm lo by auto
qed


lemma relocation_nth:
  "is_relocation n Q \<Longrightarrow> i < n \<Longrightarrow> vec_at Q i = Inr (Q ! i) \<and> unat (Q ! i) < n"
  by (auto simp: is_relocation_def vec_at_def list_all_length)

lemma relocation_inj:
  "is_relocation n Q \<Longrightarrow> i < n \<Longrightarrow> i' < n \<Longrightarrow> unat (Q ! i') = unat (Q ! i) \<Longrightarrow> i' = i"
  by (auto simp: is_relocation_def nth_eq_iff_index_eq simp flip: word_unat_eq_iff)

lemma map_references_correct:
  assumes nb: "has_size k n nb" and nP: "has_size k n nP"
    and valid: "\<forall>i<n. \<forall>j<k. unat (cols nP ! i ! j) < length R"
  shows "\<exists>nb'. map_references R nP nb = Inr nb' \<and> has_size k n nb' \<and>
           (\<forall>i<n. cols nb' ! i = map (\<lambda>v. R ! unat v) (cols nP ! i))"
proof -
  let ?f = "\<lambda>v. R ! unat v"
  let ?I = "\<lambda>i s. has_size k n s \<and> (\<forall>i'<i. cols s ! i' = map ?f (cols nP ! i'))"
  let ?body = "\<lambda>i neighbors. for_each [0..<n_rows neighbors]
            (\<lambda>j neighbors. bindE (elem_at nP j i) (\<lambda>v. bindE (vec_at R (unat v)) (\<lambda>r. set_elem neighbors j i r)))
            neighbors"
  have step: "\<exists>s'. ?body i s = Inr s' \<and> ?I (Suc i) s'" if "i < n" "?I i s" for i s
  proof -
    from that have s: "has_size k n s" by simp
    have v: "\<forall>j<k. unat (cols nP ! i ! j) < length R" using valid that(1) by simp
    have rows: "n_rows s = k" using s by (simp add: has_size_def)
    have len: "length (map ?f (cols nP ! i)) = k" using nP that(1) by (simp add: has_size_col)
    have in_range: "i < length (cols s)" using s that(1) by (simp add: has_size_def n_cols_def)
    have "?body i s = Inr (Mat k ((cols s)[i := map ?f (cols nP ! i)]))"
      using relocate_column [OF s that(1) nP that(1) v] rows by simp
    moreover have "has_size k n (Mat k ((cols s)[i := map ?f (cols nP ! i)]))"
      using has_size_update [OF s len] .
    moreover have "\<forall>i'<Suc i. cols (Mat k ((cols s)[i := map ?f (cols nP ! i)])) ! i' = map ?f (cols nP ! i')"
      using that(2) in_range by (auto simp: nth_list_update less_Suc_eq)
    ultimately show ?thesis by blast
  qed
  have init: "?I 0 nb" using nb by simp
  have cols_n: "n_cols nb = n" using nb by (simp add: has_size_def)
  from for_each_upt_rule [of ?I nb n ?body, OF init step]
  show ?thesis unfolding map_references_def cols_n by blast
qed

lemma map_both_correct:
  assumes nb: "has_size k n nb" and ds: "has_size k n ds"
    and nP: "has_size k n nP" and dP: "has_size k n dP"
    and Q: "is_relocation n Q"
    and valid: "\<forall>i<n. \<forall>j<k. unat (cols nP ! i ! j) < length R"
  shows "\<exists>nb' ds'. map_both Q R nP dP (nb, ds) = Inr (nb', ds') \<and> has_size k n nb' \<and> has_size k n ds' \<and>
           (\<forall>i<n. cols ds' ! unat (Q ! i) = cols dP ! i \<and>
                   cols nb' ! unat (Q ! i) = map (\<lambda>v. R ! unat v) (cols nP ! i))"
proof -
  let ?f = "\<lambda>v. R ! unat v"
  let ?I = "\<lambda>i s. has_size k n (fst s) \<and> has_size k n (snd s) \<and>
              (\<forall>i'<i. cols (snd s) ! unat (Q ! i') = cols dP ! i' \<and>
                       cols (fst s) ! unat (Q ! i') = map ?f (cols nP ! i'))"
  let ?body = "(\<lambda>i (neighbors, distances).
             bindE (vec_at Q i) (\<lambda>q.
             bindE (col_of dP i) (\<lambda>c.
             bindE (set_col distances (unat q) c) (\<lambda>distances'.
             bindE (for_each [0..<n_rows distances']
                      (\<lambda>j neighbors.
                         bindE (elem_at nP j i) (\<lambda>v.
                         bindE (vec_at R (unat v)) (\<lambda>r.
                         bindE (vec_at Q i) (\<lambda>q'.
                           set_elem neighbors j (unat q') r))))
                      neighbors) (\<lambda>neighbors'.
               Inr (neighbors', distances'))))))"
  have step: "\<exists>s'. ?body i s = Inr s' \<and> ?I (Suc i) s'" if "i < n" "?I i s" for i s
  proof -
    obtain a b where sab: "s = (a, b)" by (cases s)
    from that sab have a: "has_size k n a" and b: "has_size k n b" by simp_all
    have q: "vec_at Q i = Inr (Q ! i)" "unat (Q ! i) < n"
      using relocation_nth [OF Q that(1)] by simp_all
    have v: "\<forall>j<k. unat (cols nP ! i ! j) < length R" using valid that(1) by simp
    have lenD: "length (cols dP ! i) = k" using dP that(1) by (simp add: has_size_col)
    have lenN: "length (map ?f (cols nP ! i)) = k" using nP that(1) by (simp add: has_size_col)
    have cd: "col_of dP i = Inr (cols dP ! i)"
      using dP that(1) by (simp add: col_of_def has_size_def)
    have sc: "set_col b (unat (Q ! i)) (cols dP ! i) = Inr (Mat k ((cols b)[unat (Q ! i) := cols dP ! i]))"
      using b q(2) lenD by (simp add: set_col_def has_size_def)
    have inner: "for_each [0..<k]
           (\<lambda>j nb. bindE (elem_at nP j i) (\<lambda>v. bindE (vec_at R (unat v)) (\<lambda>r. set_elem nb j (unat (Q ! i)) r))) a
         = Inr (Mat k ((cols a)[unat (Q ! i) := map ?f (cols nP ! i)]))"
      using relocate_column [OF a q(2) nP that(1) v] .
    let ?a' = "Mat k ((cols a)[unat (Q ! i) := map ?f (cols nP ! i)])"
    let ?b' = "Mat k ((cols b)[unat (Q ! i) := cols dP ! i])"
    have res: "?body i s = Inr (?a', ?b')"
      using sab q(1) cd sc inner by simp
    have sa: "has_size k n ?a'" using has_size_update [OF a lenN] .
    have sb: "has_size k n ?b'" using has_size_update [OF b lenD] .
    have la: "unat (Q ! i) < length (cols a)" using a q(2) by (simp add: has_size_def n_cols_def)
    have lb: "unat (Q ! i) < length (cols b)" using b q(2) by (simp add: has_size_def n_cols_def)
    have old: "cols ?b' ! unat (Q ! i') = cols dP ! i' \<and> cols ?a' ! unat (Q ! i') = map ?f (cols nP ! i')"
      if "i' < Suc i" for i'
    proof (cases "i' = i")
      case True
      then show ?thesis using la lb by simp
    next
      case False
      with \<open>i' < Suc i\<close> have lt: "i' < i" by simp
      then have "i' < n" using \<open>i < n\<close> by simp
      then have "unat (Q ! i') \<noteq> unat (Q ! i)"
        using relocation_inj [OF Q \<open>i < n\<close>, of i'] False by blast
      moreover have "cols b ! unat (Q ! i') = cols dP ! i' \<and> cols a ! unat (Q ! i') = map ?f (cols nP ! i')"
        using \<open>?I i s\<close> sab lt by simp
      ultimately show ?thesis by simp
    qed
    show ?thesis using res sa sb old by auto
  qed
  have init: "?I 0 (nb, ds)" using nb ds by simp
  have cols_n: "n_cols ds = n" using ds by (simp add: has_size_def)
  from for_each_upt_rule [of ?I "(nb, ds)" n ?body, OF init step]
  obtain s' where s': "for_each [0..<n] ?body (nb, ds) = Inr s'" "?I n s'"
    by blast
  from s'(1) have "map_both Q R nP dP (nb, ds) = Inr (fst s', snd s')"
    by (simp add: map_both_def cols_n)
  with s'(2) show ?thesis by blast
qed


lemma for_each_cong:
  "(\<And>i s. i \<in> set xs \<Longrightarrow> f i s = g i s) \<Longrightarrow> for_each xs f s = for_each xs g s"
  by (induction xs arbitrary: s) (auto simp: bindE_def split: sum.splits)

lemma map_self_eq: "map_self R nP dP s = map_both R R nP dP s"
proof -
  obtain nb ds where s: "s = (nb, ds)" by (cases s)
  show ?thesis
    unfolding map_self_def map_both_def s prod.case
  proof (rule for_each_cong)
    fix i and st :: "size_t mat \<times> 'a mat"
    obtain a b where st: "st = (a, b)" by (cases st)
    show "(case st of (neighbors, distances) \<Rightarrow>
             bindE (vec_at R i) (\<lambda>refMapping.
             bindE (col_of dP i) (\<lambda>c.
             bindE (set_col distances (unat refMapping) c) (\<lambda>distances'.
             bindE (for_each [0..<n_rows distances']
                      (\<lambda>j neighbors.
                         bindE (elem_at nP j i) (\<lambda>v.
                         bindE (vec_at R (unat v)) (\<lambda>r.
                           set_elem neighbors j (unat refMapping) r)))
                      neighbors) (\<lambda>neighbors'.
               Inr (neighbors', distances')))))) =
          (case st of (neighbors, distances) \<Rightarrow>
             bindE (vec_at R i) (\<lambda>q.
             bindE (col_of dP i) (\<lambda>c.
             bindE (set_col distances (unat q) c) (\<lambda>distances'.
             bindE (for_each [0..<n_rows distances']
                      (\<lambda>j neighbors.
                         bindE (elem_at nP j i) (\<lambda>v.
                         bindE (vec_at R (unat v)) (\<lambda>r.
                         bindE (vec_at R i) (\<lambda>q'.
                           set_elem neighbors j (unat q') r))))
                      neighbors) (\<lambda>neighbors'.
               Inr (neighbors', distances'))))))"
    proof (cases "vec_at R i")
      case (Inl e)
      then show ?thesis by (simp add: st)
    next
      case (Inr q)
      then show ?thesis by (simp add: st)
    qed
  qed
qed

lemma map_queries_correct:
  assumes nb: "has_size k n nb" and ds: "has_size k n ds"
    and nP: "has_size k n nP" and dP: "has_size k n dP"
    and Q: "is_relocation n Q"
  shows "\<exists>nb' ds'. map_queries Q nP dP (nb, ds) = Inr (nb', ds') \<and> has_size k n nb' \<and> has_size k n ds' \<and>
           (\<forall>i<n. cols ds' ! unat (Q ! i) = cols dP ! i \<and> cols nb' ! unat (Q ! i) = cols nP ! i)"
proof -
  let ?I = "\<lambda>i s. has_size k n (fst s) \<and> has_size k n (snd s) \<and>
              (\<forall>i'<i. cols (snd s) ! unat (Q ! i') = cols dP ! i' \<and>
                       cols (fst s) ! unat (Q ! i') = cols nP ! i')"
  let ?body = "(\<lambda>i (neighbors, distances).
             bindE (vec_at Q i) (\<lambda>queryMapping.
             bindE (col_of dP i) (\<lambda>c.
             bindE (set_col distances (unat queryMapping) c) (\<lambda>distances'.
             bindE (col_of nP i) (\<lambda>c'.
             bindE (set_col neighbors (unat queryMapping) c') (\<lambda>neighbors'.
               Inr (neighbors', distances')))))))"
  have step: "\<exists>s'. ?body i s = Inr s' \<and> ?I (Suc i) s'" if "i < n" "?I i s" for i s
  proof -
    obtain a b where sab: "s = (a, b)" by (cases s)
    from that sab have a: "has_size k n a" and b: "has_size k n b" by simp_all
    have q: "vec_at Q i = Inr (Q ! i)" "unat (Q ! i) < n"
      using relocation_nth [OF Q that(1)] by simp_all
    have lenD: "length (cols dP ! i) = k" using dP that(1) by (simp add: has_size_col)
    have lenN: "length (cols nP ! i) = k" using nP that(1) by (simp add: has_size_col)
    have cd: "col_of dP i = Inr (cols dP ! i)"
      using dP that(1) by (simp add: col_of_def has_size_def)
    have cn: "col_of nP i = Inr (cols nP ! i)"
      using nP that(1) by (simp add: col_of_def has_size_def)
    have sc: "set_col b (unat (Q ! i)) (cols dP ! i) = Inr (Mat k ((cols b)[unat (Q ! i) := cols dP ! i]))"
      using b q(2) lenD by (simp add: set_col_def has_size_def)
    have sn: "set_col a (unat (Q ! i)) (cols nP ! i) = Inr (Mat k ((cols a)[unat (Q ! i) := cols nP ! i]))"
      using a q(2) lenN by (simp add: set_col_def has_size_def)
    let ?a' = "Mat k ((cols a)[unat (Q ! i) := cols nP ! i])"
    let ?b' = "Mat k ((cols b)[unat (Q ! i) := cols dP ! i])"
    have res: "?body i s = Inr (?a', ?b')"
      using sab q(1) cd cn sc sn by simp
    have sa: "has_size k n ?a'" using has_size_update [OF a lenN] .
    have sb: "has_size k n ?b'" using has_size_update [OF b lenD] .
    have la: "unat (Q ! i) < length (cols a)" using a q(2) by (simp add: has_size_def n_cols_def)
    have lb: "unat (Q ! i) < length (cols b)" using b q(2) by (simp add: has_size_def n_cols_def)
    have old: "cols ?b' ! unat (Q ! i') = cols dP ! i' \<and> cols ?a' ! unat (Q ! i') = cols nP ! i'"
      if "i' < Suc i" for i'
    proof (cases "i' = i")
      case True
      then show ?thesis using la lb by simp
    next
      case False
      with \<open>i' < Suc i\<close> have lt: "i' < i" by simp
      then have "i' < n" using \<open>i < n\<close> by simp
      then have "unat (Q ! i') \<noteq> unat (Q ! i)"
        using relocation_inj [OF Q \<open>i < n\<close>, of i'] False by blast
      moreover have "cols b ! unat (Q ! i') = cols dP ! i' \<and> cols a ! unat (Q ! i') = cols nP ! i'"
        using \<open>?I i s\<close> sab lt by simp
      ultimately show ?thesis by simp
    qed
    show ?thesis using res sa sb old by auto
  qed
  have init: "?I 0 (nb, ds)" using nb ds by simp
  have cols_n: "n_cols ds = n" using ds by (simp add: has_size_def)
  from for_each_upt_rule [of ?I "(nb, ds)" n ?body, OF init step]
  obtain s' where s': "for_each [0..<n] ?body (nb, ds) = Inr s'" "?I n s'"
    by blast
  from s'(1) have "map_queries Q nP dP (nb, ds) = Inr (fst s', snd s')"
    by (simp add: map_queries_def cols_n)
  with s'(2) show ?thesis by blast
qed

section \<open>The small instance, evaluated\<close>

lemma demo_engine_naive:
  "demo_engine r True sm =
     \<lparr> oldFromNewReferences = [], referenceTree = None, referenceSet = PtrMatrix demo_refs,
       treeOwner = False, setOwner = False, naive = True, singleMode = False,
       tau = 1 / 2, alpha = 95 / 100, sampleAtLeaves = False, firstLeafExact = False,
       singleSampleLimit = 20, metric = () \<rparr>"
  by (simp add: demo_engine_def RASearch_of_set_def)

lemma demo_engine_tree:
  "demo_engine True False sm =
     \<lparr> oldFromNewReferences = [3, 2, 1, 0],
       referenceTree = Some (demo_tree 0 (Mat 1 [[100], [2], [1], [0]])),
       referenceSet = PtrTreeDataset,
       treeOwner = True, setOwner = False, naive = False, singleMode = sm,
       tau = 1 / 2, alpha = 95 / 100, sampleAtLeaves = False, firstLeafExact = False,
       singleSampleLimit = 20, metric = () \<rparr>"
  by (simp add: demo_engine_def RASearch_of_set_def demo_env_def BuildTree_def SpatialTree_ctor_def
      demo_refs_def n_cols_def)

section \<open>Search modes\<close>

text \<open>
  Claim C9. The search modes are mutually exclusive after construction: whatever the
  arguments of the constructor from a reference matrix, the engine never has both
  \<open>naive\<close> and \<open>singleMode\<close> set; \<open>naive\<close> is the argument and \<open>singleMode\<close> is the
  argument only when \<open>naive\<close> is false, so that passing \<open>naive = true\<close> forces
  \<open>singleMode\<close> to false; the constructor from a tree always yields \<open>naive = false\<close>.
\<close>

theorem modes_mutually_exclusive:
  "\<not> (naive (fst (RASearch_of_set env referenceSetIn nv sm t a sl fl ssl mt)) \<and>
       singleMode (fst (RASearch_of_set env referenceSetIn nv sm t a sl fl ssl mt))) \<and>
   naive (fst (RASearch_of_set env referenceSetIn nv sm t a sl fl ssl mt)) = nv \<and>
   singleMode (fst (RASearch_of_set env referenceSetIn nv sm t a sl fl ssl mt)) = (\<not> nv \<and> sm) \<and>
   singleMode (fst (RASearch_of_set env referenceSetIn True sm t a sl fl ssl mt)) = False \<and>
   naive (RASearch_of_tree rt sm t a sl fl ssl mt) = False \<and>
   singleMode (RASearch_of_tree rt sm t a sl fl ssl mt) = sm"
  by (simp add: RASearch_of_set_def RASearch_of_tree_def Let_def)

theorem modes_mutually_exclusive_witness:
  "naive (demo_engine True True True) \<and> \<not> singleMode (demo_engine True True True)"
  using modes_mutually_exclusive [of "demo_env True" demo_refs True True "1 / 2" "95 / 100" False False 20 "()"]
  by (simp add: demo_engine_def)

text \<open>
  Claim C4. Calling the query-tree entry point of \<^verbatim>\<open>Search\<close> on an engine in naive or
  single-tree mode throws \<^verbatim>\<open>std::invalid_argument\<close>: nothing is traversed, and the
  caller's neighbor and distance matrices are as they were, neither resized nor written.
\<close>

theorem Search_tree_invalid_mode:
  "singleMode e \<or> naive e \<Longrightarrow>
   Search_tree env un e g queryTree k neighbors distances = Threw_invalid_argument neighbors distances"
  by (simp add: Search_tree_def)

theorem Search_tree_invalid_mode_witness:
  "singleMode (demo_engine True False True) \<and>
   Search_tree (demo_env True) (demo_uninit 7) (demo_engine True False True) 0
     (demo_tree 0 demo_queries) 1 (Mat 1 [[5]]) (Mat 2 [[4, 4]])
   = Threw_invalid_argument (Mat 1 [[5]]) (Mat 2 [[4, 4]])"
proof -
  have h: "singleMode (demo_engine True False True) \<or> naive (demo_engine True False True)"
    by (simp add: demo_engine_tree)
  show ?thesis
    using Search_tree_invalid_mode [OF h] by (simp add: demo_engine_tree)
qed

section \<open>Node statistics\<close>











section \<open>Serialization of the engine\<close>







lemma load_scalars:
  "load_bool ((n, FBool b) # ar) = Inr (b, ar)"
  "load_double ((n, FDouble x) # ar) = Inr (x, ar)"
  "load_size ((n, FSize y) # ar) = Inr (y, ar)"
  by simp_all








section \<open>Base cases in naive mode\<close>

lemma fold_call_BaseCase:
  "snd (fold (\<lambda>j. call_BaseCase env i (f j)) js s) = snd s @ map (\<lambda>j. CallBaseCase i (f j)) js"
  by (induction js arbitrary: s) (auto simp: call_BaseCase_def split: prod.splits)

lemma fold_fold_call_BaseCase:
  "snd (fold (\<lambda>i. fold (\<lambda>j. call_BaseCase env i (f j)) js) is s) =
     snd s @ concat (map (\<lambda>i. map (\<lambda>j. CallBaseCase i (f j)) js) is)"
  by (induction "is" arbitrary: s) (auto simp: fold_call_BaseCase)

lemma BaseCase_refs_append:
  "BaseCase_refs i (xs @ ys) = BaseCase_refs i xs @ BaseCase_refs i ys"
  by (induction i xs rule: BaseCase_refs.induct) auto

lemma BaseCase_refs_row:
  "BaseCase_refs i (map (\<lambda>j. CallBaseCase q (f j)) js) = (if q = i then map f js else [])"
  by (induction js) auto

lemma BaseCase_refs_rows:
  "BaseCase_refs i (concat (map (\<lambda>q. map (\<lambda>j. CallBaseCase q (f j)) js) [0..<n])) =
     (if i < n then map f js else [])"
  by (induction n) (auto simp: BaseCase_refs_append BaseCase_refs_row)

lemma Search_self_naive_calls:
  assumes "naive e" "deref_set e = Inr refs" "\<not> (treeOwner e \<and> RearrangesDataset env)"
  shows "\<exists>out. Search_self env un e g k neighbors distances = Returned out \<and>
           calls out = concat (map (\<lambda>i. map (\<lambda>j. CallBaseCase i j) [0..<n_cols refs]) [0..<n_cols refs])"
proof -
  obtain nP dP where prep: "Search_self_prepare env un e (n_cols refs) k neighbors distances = (nP, dP)"
    by (cases "Search_self_prepare env un e (n_cols refs) k neighbors distances")
  let ?rules = "RASearchRules env refs refs nP dP e True g"
  obtain samples g' where smp:
    "ObtainDistinctSamples env (MinimumSamplesReqd env (n_cols refs) k (tau e) (alpha e)) (n_cols refs)
       (rng ?rules) = (samples, g')"
    by (cases "ObtainDistinctSamples env (MinimumSamplesReqd env (n_cols refs) k (tau e) (alpha e))
       (n_cols refs) (rng ?rules)")
  let ?loop = "fold (\<lambda>i. fold (\<lambda>j. call_BaseCase env i j) [0..<n_cols refs]) [0..<n_cols refs]
                 (?rules\<lparr>rng := g'\<rparr>, [])"
  have run: "Search_self_run env e k refs ?rules = Inr (fst ?loop, snd ?loop, e)"
    using assms(1) smp by (simp add: Search_self_run_def Let_def case_prod_beta)
  have tr: "snd ?loop = concat (map (\<lambda>i. map (\<lambda>j. CallBaseCase i j) [0..<n_cols refs]) [0..<n_cols refs])"
    using fold_fold_call_BaseCase [of env "\<lambda>j. j" "[0..<n_cols refs]" "[0..<n_cols refs]"
        "(?rules\<lparr>rng := g'\<rparr>, [])"]
    by simp
  show ?thesis
    using assms(2,3) prep run tr by (auto simp: Search_self_def)
qed

lemma Search_naive_calls:
  assumes "naive e" "deref_set e = Inr refs" "\<not> (treeOwner e \<and> RearrangesDataset env)"
    and prep: "Search_prepare env un e querySet k neighbors distances = (nP, dP)"
    and smp: "ObtainDistinctSamples env (MinimumSamplesReqd env (n_cols refs) k (tau e) (alpha e))
                (n_cols refs) (rng (RASearchRules env refs querySet nP dP e False g)) = (samples, g')"
  shows "\<exists>out. Search env un e g querySet k neighbors distances = Returned out \<and>
           calls out = concat (map (\<lambda>i. map (\<lambda>j. CallBaseCase i (samples ! j)) [0..<length samples])
                                [0..<n_cols querySet])"
proof -
  let ?rules = "RASearchRules env refs querySet nP dP e False g"
  let ?loop = "fold (\<lambda>i. fold (\<lambda>j. call_BaseCase env i (samples ! j)) [0..<length samples])
                 [0..<n_cols querySet] (?rules\<lparr>rng := g'\<rparr>, [])"
  have run: "Search_run env e g querySet k nP dP = Inr (fst ?loop, snd ?loop, [], querySet, e)"
    using assms(1,2) smp by (simp add: Search_run_def Let_def case_prod_beta)
  have tr: "snd ?loop = concat (map (\<lambda>i. map (\<lambda>j. CallBaseCase i (samples ! j)) [0..<length samples])
                                [0..<n_cols querySet])"
    using fold_fold_call_BaseCase [of env "\<lambda>j. samples ! j" "[0..<length samples]" "[0..<n_cols querySet]"
        "(?rules\<lparr>rng := g'\<rparr>, [])"]
    by simp
  have fin: "Search_finish env un e k n ofn a b c d = Inr (c, d)" for n ofn a b c d
    using assms(1,3) by (auto simp: Search_finish_def)
  show ?thesis
    using prep run tr fin by (simp add: Search_def)
qed

lemma sampling_engine_naive:
  "sampling_engine =
     \<lparr> oldFromNewReferences = [], referenceTree = None, referenceSet = PtrMatrix demo_refs,
       treeOwner = False, setOwner = False, naive = True, singleMode = False,
       tau = 50, alpha = 2 / 5, sampleAtLeaves = False, firstLeafExact = False,
       singleSampleLimit = 20, metric = () \<rparr>"
  by (simp add: sampling_engine_def RASearch_of_set_def)

lemma upt_4: "[0..<4] = [0, 1, 2, 3]"
  by (simp add: upt_rec)

lemma MinimumSamplesRequired_half:
  "MinimumSamplesRequired 4 1 50 (2 / 5) = 1" "MinimumSamplesRequired 4 1 5000 (2 / 5) = 1"
  by (simp_all add: MinimumSamplesRequired_def hit_probability_def upt_4)

lemma MinimumSamplesRequired_scenario: "MinimumSamplesRequired 4 1 (1 / 2) (95 / 100) = 4"
  by (simp add: MinimumSamplesRequired_def)

lemma sampling_env_sel:
  "MinimumSamplesReqd sampling_env = MinimumSamplesRequired"
  "ObtainDistinctSamples sampling_env = (\<lambda>m n g. (map (\<lambda>s. (g + s) mod n) [0..<min m n], Suc g))"
  "RearrangesDataset sampling_env = False"
  "RASearchRules sampling_env = (\<lambda>refs queries nb ds e sameSet g.
                          \<lparr> nbrs = nb, dists = ds, priv = (refs, queries, sameSet), rng = g \<rparr>)"
  by (simp_all add: sampling_env_def demo_env_def)

text \<open>
  Claim C2 says that in naive mode every entry point evaluates each query against
  exactly the sampled reference points, so that the number of \<^verbatim>\<open>BaseCase\<close> calls per
  query is the number of samples drawn. \<^verbatim>\<open>Search(querySet, k, neighbors, distances)\<close>
  does (\<open>Search_naive_calls\<close>); \<^verbatim>\<open>Search(k, neighbors, distances)\<close> draws the samples
  and then runs the base case on every reference point (\<open>Search_self_naive_calls\<close>),
  whatever the sample is. On the four reference points with \<open>k = 1\<close>, \<open>\<tau> = 50\<close> and
  \<open>\<alpha> = 2/5\<close> one sample is required (also when \<open>\<tau>\<close> is taken as a fraction of the
  population, a hundred times the percentage: then every point is best-ranked) and
  point 0 is drawn: the first entry point calls \<^verbatim>\<open>BaseCase\<close> once for query 0, the
  second four times. On the spec's scenario (\<open>\<tau> = 0.5\<close>, \<open>\<alpha> = 0.95\<close>) all four points
  are required (\<open>MinimumSamplesRequired_scenario\<close>), and the two entry points agree.
\<close>

theorem Search_self_naive_ignores_samples:
  "MinimumSamplesReqd sampling_env (n_cols demo_refs) 1 (tau sampling_engine) (alpha sampling_engine) = 1 \<and>
   MinimumSamplesRequired (n_cols demo_refs) 1 (100 * tau sampling_engine) (alpha sampling_engine) = 1 \<and>
   fst (ObtainDistinctSamples sampling_env 1 (n_cols demo_refs) 0) = [0] \<and>
   map_option (BaseCase_refs 0)
     (calls_of (Search_self sampling_env (demo_uninit 7) sampling_engine 0 1 (Mat 0 []) (Mat 0 [])))
     = Some [0, 1, 2, 3] \<and>
   map_option (BaseCase_refs 0)
     (calls_of (Search sampling_env (demo_uninit 7) sampling_engine 0 demo_queries 1 (Mat 0 []) (Mat 0 [])))
     = Some [0]"
proof -
  let ?e = "sampling_engine"
  have e: "naive ?e" "deref_set ?e = Inr demo_refs" "\<not> (treeOwner ?e \<and> RearrangesDataset sampling_env)"
    by (simp_all add: sampling_engine_naive deref_set_def)
  have n: "n_cols demo_refs = 4" "n_cols demo_queries = 2"
    by (simp_all add: demo_refs_def demo_queries_def n_cols_def)
  have ta: "tau ?e = 50" "alpha ?e = 2 / 5"
    by (simp_all add: sampling_engine_naive)
  have up: "[0..<4] = [0, 1, 2, 3]" "[0..<2] = [0, 1]"
    by (simp_all add: upt_rec)
  have m: "MinimumSamplesReqd sampling_env 4 1 50 (2 / 5) = 1"
    using MinimumSamplesRequired_half(1) by (simp only: sampling_env_sel)
  have s: "ObtainDistinctSamples sampling_env 1 4 0 = ([0], 1)"
    by (simp add: sampling_env_sel)
  from Search_self_naive_calls [OF e, of "demo_uninit 7" 0 1 "Mat 0 []" "Mat 0 []"]
  have a: "map_option (BaseCase_refs 0)
     (calls_of (Search_self sampling_env (demo_uninit 7) ?e 0 1 (Mat 0 []) (Mat 0 []))) = Some [0, 1, 2, 3]"
    by (auto simp: calls_of_def n up)
  obtain nP dP where prep:
    "Search_prepare sampling_env (demo_uninit 7) ?e demo_queries 1 (Mat 0 []) (Mat 0 []) = (nP, dP)"
    by (cases "Search_prepare sampling_env (demo_uninit 7) ?e demo_queries 1 (Mat 0 []) (Mat 0 [])")
  have smp: "ObtainDistinctSamples sampling_env
               (MinimumSamplesReqd sampling_env (n_cols demo_refs) 1 (tau ?e) (alpha ?e))
                (n_cols demo_refs) (rng (RASearchRules sampling_env demo_refs demo_queries nP dP ?e False 0))
             = ([0], 1)"
    by (simp add: n ta sampling_env_sel MinimumSamplesRequired_half [unfolded One_nat_def])
  from Search_naive_calls [OF e prep smp]
  have b: "map_option (BaseCase_refs 0)
     (calls_of (Search sampling_env (demo_uninit 7) ?e 0 demo_queries 1 (Mat 0 []) (Mat 0 []))) = Some [0]"
    by (auto simp: calls_of_def n up)
  show ?thesis
    using a b s m by (simp add: n ta MinimumSamplesRequired_half [unfolded One_nat_def])
qed


section \<open>Mapping results back to original indices\<close>

lemma indexes_intoD:
  "indexes_into v m \<Longrightarrow> has_size k n m \<Longrightarrow> \<forall>i<n. \<forall>j<k. unat (cols m ! i ! j) < length v"
  by (auto simp: indexes_into_def has_size_def n_cols_def wf_mat_def list_all_length)

lemma Search_relocates:
  assumes prep: "Search_prepare env un e querySet k neighbors distances = (nP, dP)"
    and run: "Search_run env e g querySet k nP dP = Inr (rules, tr, oFNQ, querySet', e')"
    and nsz: "has_size k (n_cols querySet') (nbrs rules)"
    and dsz: "has_size k (n_cols querySet') (dists rules)"
    and wf: "wf_mat neighbors" "wf_mat distances"
    and Q: "Search_tempD env e \<Longrightarrow> is_relocation (n_cols querySet') oFNQ"
    and R: "RearrangesDataset env \<and> treeOwner e \<Longrightarrow> indexes_into (oldFromNewReferences e) (nbrs rules)"
  shows "\<exists>out. Search env un e g querySet k neighbors distances = Returned out \<and>
           has_size k (n_cols querySet') (neighbors_out out) \<and>
           has_size k (n_cols querySet') (distances_out out) \<and>
           (\<forall>i<n_cols querySet'.
              cols (distances_out out) ! (if Search_tempD env e then unat (oFNQ ! i) else i)
                = cols (dists rules) ! i \<and>
              cols (neighbors_out out) ! (if Search_tempD env e then unat (oFNQ ! i) else i)
                = (if RearrangesDataset env \<and> treeOwner e
                   then map (\<lambda>v. oldFromNewReferences e ! unat v) (cols (nbrs rules) ! i)
                   else cols (nbrs rules) ! i)) \<and>
           calls out = tr \<and> querySet_out out = Some querySet' \<and> engine_out out = e' \<and>
           rng_out out = rng rules"
proof -
  let ?n = "n_cols querySet'"
  let ?nb = "if Search_tempN env e then neighbors else nbrs rules"
  let ?ds = "if Search_tempD env e then distances else dists rules"
  let ?pos = "\<lambda>i. if Search_tempD env e then unat (oFNQ ! i) else i"
  let ?val = "\<lambda>i. if RearrangesDataset env \<and> treeOwner e
                   then map (\<lambda>v. oldFromNewReferences e ! unat v) (cols (nbrs rules) ! i)
                   else cols (nbrs rules) ! i"
  have fin: "\<exists>nb' ds'. Search_finish env un e k ?n oFNQ (nbrs rules) (dists rules) ?nb ?ds = Inr (nb', ds') \<and>
               has_size k ?n nb' \<and> has_size k ?n ds' \<and>
               (\<forall>i<?n. cols ds' ! ?pos i = cols (dists rules) ! i \<and> cols nb' ! ?pos i = ?val i)"
  proof (cases "RearrangesDataset env")
    case False
    then show ?thesis
      using nsz dsz by (simp add: Search_finish_def Search_tempN_def Search_tempD_def)
  next
    case rearr: True
    show ?thesis
    proof (cases "\<not> singleMode e \<and> \<not> naive e")
      case dual: True
      then have tD: "Search_tempD env e" and tN: "Search_tempN env e"
        using rearr by (simp_all add: Search_tempD_def Search_tempN_def)
      have sn: "has_size k ?n (set_size (raw_idx un 2) k ?n neighbors)"
        using wf(1) by (rule has_size_set_size)
      have sd: "has_size k ?n (set_size (raw_dbl un 3) k ?n distances)"
        using wf(2) by (rule has_size_set_size)
      show ?thesis
      proof (cases "treeOwner e")
        case True
        have v: "\<forall>i<?n. \<forall>j<k. unat (cols (nbrs rules) ! i ! j) < length (oldFromNewReferences e)"
          using indexes_intoD [OF R nsz] rearr True by simp
        from map_both_correct [OF sn sd nsz dsz Q [OF tD] v]
        show ?thesis
          using rearr dual True tD tN by (simp add: Search_finish_def)
      next
        case False
        from map_queries_correct [OF sn sd nsz dsz Q [OF tD]]
        show ?thesis
          using rearr dual False tD tN by (simp add: Search_finish_def)
      qed
    next
      case nodual: False
      then have tD: "\<not> Search_tempD env e"
        by (auto simp: Search_tempD_def)
      show ?thesis
      proof (cases "treeOwner e")
        case True
        then have tN: "Search_tempN env e"
          using rearr by (simp add: Search_tempN_def)
        have sn: "has_size k ?n (set_size (raw_idx un 2) k ?n neighbors)"
          using wf(1) by (rule has_size_set_size)
        have v: "\<forall>i<?n. \<forall>j<k. unat (cols (nbrs rules) ! i ! j) < length (oldFromNewReferences e)"
          using indexes_intoD [OF R nsz] rearr True by simp
        from map_references_correct [OF sn nsz v]
        obtain nb' where nb': "map_references (oldFromNewReferences e) (nbrs rules)
              (set_size (raw_idx un 2) k ?n neighbors) = Inr nb'" "has_size k ?n nb'"
            "\<forall>i<?n. cols nb' ! i = map (\<lambda>v. oldFromNewReferences e ! unat v) (cols (nbrs rules) ! i)"
          by blast
        have "Search_finish env un e k ?n oFNQ (nbrs rules) (dists rules) ?nb ?ds = Inr (nb', dists rules)"
          using rearr nodual True tD tN nb'(1) by (auto simp: Search_finish_def)
        then show ?thesis
          using nb'(2,3) dsz rearr True tD by auto
      next
        case False
        then have tN: "\<not> Search_tempN env e"
          using nodual by (auto simp: Search_tempN_def)
        have "Search_finish env un e k ?n oFNQ (nbrs rules) (dists rules) ?nb ?ds = Inr (nbrs rules, dists rules)"
          using rearr nodual False tD tN by (auto simp: Search_finish_def)
        then show ?thesis
          using nsz dsz False tD by auto
      qed
    qed
  qed
  then obtain nb' ds' where r:
    "Search_finish env un e k ?n oFNQ (nbrs rules) (dists rules) ?nb ?ds = Inr (nb', ds')"
    "has_size k ?n nb'" "has_size k ?n ds'"
    "\<forall>i<?n. cols ds' ! ?pos i = cols (dists rules) ! i \<and> cols nb' ! ?pos i = ?val i"
    by blast
  have "Search env un e g querySet k neighbors distances =
          Returned \<lparr> neighbors_out = nb', distances_out = ds', querySet_out = Some querySet',
                     queryTree_out = None, engine_out = e', rng_out = rng rules, calls = tr \<rparr>"
    using prep run r(1) by (simp add: Search_def)
  with r(2,3,4) show ?thesis
    by simp
qed


lemma Search_self_relocates:
  assumes refs: "deref_set e = Inr refs"
    and prep: "Search_self_prepare env un e (n_cols refs) k neighbors distances = (nP, dP)"
    and run: "Search_self_run env e k refs (RASearchRules env refs refs nP dP e True g) = Inr (rules, tr, e')"
    and nsz: "has_size k (n_cols refs) (nbrs rules)"
    and dsz: "has_size k (n_cols refs) (dists rules)"
    and wf: "wf_mat neighbors" "wf_mat distances"
    and R: "treeOwner e \<and> RearrangesDataset env \<Longrightarrow>
              is_relocation (n_cols refs) (oldFromNewReferences e) \<and>
              indexes_into (oldFromNewReferences e) (nbrs rules)"
  shows "\<exists>out. Search_self env un e g k neighbors distances = Returned out \<and>
           has_size k (n_cols refs) (neighbors_out out) \<and>
           has_size k (n_cols refs) (distances_out out) \<and>
           (\<forall>i<n_cols refs.
              cols (distances_out out) !
                  (if treeOwner e \<and> RearrangesDataset env then unat (oldFromNewReferences e ! i) else i)
                = cols (dists rules) ! i \<and>
              cols (neighbors_out out) !
                  (if treeOwner e \<and> RearrangesDataset env then unat (oldFromNewReferences e ! i) else i)
                = (if treeOwner e \<and> RearrangesDataset env
                   then map (\<lambda>v. oldFromNewReferences e ! unat v) (cols (nbrs rules) ! i)
                   else cols (nbrs rules) ! i)) \<and>
           calls out = tr \<and> engine_out out = e' \<and> rng_out out = rng rules"
proof (cases "treeOwner e \<and> RearrangesDataset env")
  case True
  let ?n = "n_cols refs"
  have sn: "has_size k ?n (set_size (raw_idx un 2) k ?n neighbors)"
    using wf(1) by (rule has_size_set_size)
  have sd: "has_size k ?n (set_size (raw_dbl un 3) k ?n distances)"
    using wf(2) by (rule has_size_set_size)
  have Q: "is_relocation ?n (oldFromNewReferences e)" and I: "indexes_into (oldFromNewReferences e) (nbrs rules)"
    using R [OF True] by simp_all
  have v: "\<forall>i<?n. \<forall>j<k. unat (cols (nbrs rules) ! i ! j) < length (oldFromNewReferences e)"
    using indexes_intoD [OF I nsz] .
  from map_both_correct [OF sn sd nsz dsz Q v]
  obtain nb' ds' where r:
    "map_self (oldFromNewReferences e) (nbrs rules) (dists rules)
       (set_size (raw_idx un 2) k ?n neighbors, set_size (raw_dbl un 3) k ?n distances) = Inr (nb', ds')"
    "has_size k ?n nb'" "has_size k ?n ds'"
    "\<forall>i<?n. cols ds' ! unat (oldFromNewReferences e ! i) = cols (dists rules) ! i \<and>
        cols nb' ! unat (oldFromNewReferences e ! i)
          = map (\<lambda>v. oldFromNewReferences e ! unat v) (cols (nbrs rules) ! i)"
    unfolding map_self_eq by blast
  have "Search_self env un e g k neighbors distances =
          Returned \<lparr> neighbors_out = nb', distances_out = ds', querySet_out = None,
                     queryTree_out = None, engine_out = e', rng_out = rng rules, calls = tr \<rparr>"
    using refs prep run r(1) True by (simp add: Search_self_def)
  with r(2,3,4) True show ?thesis
    by simp
next
  case False
  have "Search_self env un e g k neighbors distances =
          Returned \<lparr> neighbors_out = nbrs rules, distances_out = dists rules, querySet_out = None,
                     queryTree_out = None, engine_out = e', rng_out = rng rules, calls = tr \<rparr>"
    using refs prep run False by (auto simp: Search_self_def)
  with nsz dsz False show ?thesis
    by auto
qed

lemma Search_tree_relocates:
  assumes mode: "\<not> singleMode e" "\<not> naive e"
    and refs: "deref_set e = Inr refs" and rt: "referenceTree e = Some rt"
    and prep: "Search_tree_prepare env un e queryTree k neighbors distances = (nP, d0)"
    and trav: "DualTraverse env queryTree rt (RASearchRules env refs (Dataset queryTree) nP d0 e False g)
                 = (rules, queryTree', rt')"
    and nsz: "has_size k (n_cols (Dataset queryTree)) (nbrs rules)"
    and wf: "wf_mat neighbors"
    and R: "treeOwner e \<and> RearrangesDataset env \<Longrightarrow> indexes_into (oldFromNewReferences e) (nbrs rules)"
  shows "\<exists>out. Search_tree env un e g queryTree k neighbors distances = Returned out \<and>
           has_size k (n_cols (Dataset queryTree)) (neighbors_out out) \<and>
           distances_out out = dists rules \<and>
           (\<forall>i<n_cols (Dataset queryTree).
              cols (neighbors_out out) ! i
                = (if treeOwner e \<and> RearrangesDataset env
                   then map (\<lambda>v. oldFromNewReferences e ! unat v) (cols (nbrs rules) ! i)
                   else cols (nbrs rules) ! i)) \<and>
           queryTree_out out = Some queryTree' \<and> engine_out out = e\<lparr>referenceTree := Some rt'\<rparr>"
proof (cases "treeOwner e \<and> RearrangesDataset env")
  case True
  let ?n = "n_cols (Dataset queryTree)"
  have sn: "has_size k ?n (set_size (raw_idx un 2) k ?n neighbors)"
    using wf by (rule has_size_set_size)
  have v: "\<forall>i<?n. \<forall>j<k. unat (cols (nbrs rules) ! i ! j) < length (oldFromNewReferences e)"
    using indexes_intoD [OF R [OF True] nsz] .
  from map_references_correct [OF sn nsz v]
  obtain nb' where nb': "map_references (oldFromNewReferences e) (nbrs rules)
        (set_size (raw_idx un 2) k ?n neighbors) = Inr nb'" "has_size k ?n nb'"
      "\<forall>i<?n. cols nb' ! i = map (\<lambda>v. oldFromNewReferences e ! unat v) (cols (nbrs rules) ! i)"
    by blast
  have "Search_tree env un e g queryTree k neighbors distances =
          Returned \<lparr> neighbors_out = nb', distances_out = dists rules, querySet_out = None,
                     queryTree_out = Some queryTree', engine_out = e\<lparr>referenceTree := Some rt'\<rparr>,
                     rng_out = rng rules, calls = [CallDualTraverse queryTree rt] \<rparr>"
    using mode refs rt prep trav nb'(1) True
    by (simp add: Search_tree_def deref_tree_def Let_def)
  with nb'(2,3) True show ?thesis
    by simp
next
  case False
  have "Search_tree env un e g queryTree k neighbors distances =
          Returned \<lparr> neighbors_out = nbrs rules, distances_out = dists rules, querySet_out = None,
                     queryTree_out = Some queryTree', engine_out = e\<lparr>referenceTree := Some rt'\<rparr>,
                     rng_out = rng rules, calls = [CallDualTraverse queryTree rt] \<rparr>"
    using mode refs rt prep trav False
    by (auto simp: Search_tree_def deref_tree_def Let_def)
  with nsz False show ?thesis
    by auto
qed

lemma n_cols_demo [simp]: "n_cols demo_refs = 4" "n_cols demo_queries = 2"
  by (simp_all add: demo_refs_def demo_queries_def n_cols_def)

lemma DBL_MAX_big: "1000 < DBL_MAX"
  by (simp add: DBL_MAX_def)

lemma demo_prepare_dual:
  "Search_prepare (demo_env True) (demo_uninit 7) (demo_engine True False False) demo_queries 1
     (Mat 0 []) (Mat 0 []) = (Mat 1 [[7], [7]], Mat 1 [[DBL_MAX], [DBL_MAX]])"
  by (simp add: Search_prepare_def demo_env_def demo_uninit_def set_size_def fill_mat_def n_cols_def
      demo_queries_def)

lemma demo_dual_pairs:
  "fold (\<lambda>i. fold (demo_BaseCase i) [0..<4]) [0..<2]
     \<lparr> nbrs = Mat 1 [[7], [7]], dists = Mat 1 [[DBL_MAX], [DBL_MAX]],
       priv = (Mat 1 [[100], [2], [1], [0]], Mat 1 [[3], [3 / 2]], False), rng = 0 \<rparr>
   = \<lparr> nbrs = Mat 1 [[1], [1]], dists = Mat 1 [[1], [1 / 2]],
       priv = (Mat 1 [[100], [2], [1], [0]], Mat 1 [[3], [3 / 2]], False), rng = 0 \<rparr>"
  using DBL_MAX_big
  by (simp add: upt_rec demo_BaseCase_def demo_insert_def)

lemma demo_run_dual:
  "Search_run (demo_env True) (demo_engine True False False) 0 demo_queries 1
     (Mat 1 [[7], [7]]) (Mat 1 [[DBL_MAX], [DBL_MAX]]) =
   Inr (\<lparr> nbrs = Mat 1 [[1], [1]], dists = Mat 1 [[1], [1 / 2]],
          priv = (Mat 1 [[100], [2], [1], [0]], Mat 1 [[3], [3 / 2]], False), rng = 0 \<rparr>,
        [CallDualTraverse (demo_tree 0 (Mat 1 [[3], [3 / 2]])) (demo_tree 0 (Mat 1 [[100], [2], [1], [0]]))],
        [1, 0], demo_queries,
        (demo_engine True False False)\<lparr>referenceTree := Some (demo_tree 0 (Mat 1 [[100], [2], [1], [0]]))\<rparr>)"
proof -
  have bt: "BuildTree (demo_env True) demo_queries [] = (demo_tree 0 (Mat 1 [[3], [3 / 2]]), [1, 0], demo_queries)"
    by (simp add: BuildTree_def demo_env_def SpatialTree_ctor_def demo_queries_def n_cols_def upt_rec)
  have ds: "Dataset (demo_tree 0 m) = m" for m
    by (simp add: demo_tree_def)
  have tr: "DualTraverse (demo_env True) (demo_tree 0 (Mat 1 [[3], [3 / 2]]))
              (demo_tree 0 (Mat 1 [[100], [2], [1], [0]]))
              \<lparr> nbrs = Mat 1 [[7], [7]], dists = Mat 1 [[DBL_MAX], [DBL_MAX]],
                priv = (Mat 1 [[100], [2], [1], [0]], Mat 1 [[3], [3 / 2]], False), rng = 0 \<rparr>
            = (\<lparr> nbrs = Mat 1 [[1], [1]], dists = Mat 1 [[1], [1 / 2]],
                 priv = (Mat 1 [[100], [2], [1], [0]], Mat 1 [[3], [3 / 2]], False), rng = 0 \<rparr>,
               demo_bump (demo_tree 0 (Mat 1 [[3], [3 / 2]])),
               demo_tree 0 (Mat 1 [[100], [2], [1], [0]]))"
  proof -
    have nc: "n_cols (Mat r [a, b]) = 2" "n_cols (Mat r [a, b, c, d]) = 4" for r and a b c d :: "real list"
      by (simp_all add: n_cols_def)
    show ?thesis
      by (simp add: demo_env_def ds nc demo_dual_pairs del: One_nat_def)
  qed
  have rules: "RASearchRules (demo_env True) refs qs nb dd e same g =
                 \<lparr> nbrs = nb, dists = dd, priv = (refs, qs, same), rng = g \<rparr>" for refs qs nb dd e same g
    by (simp add: demo_env_def)
  show ?thesis
    by (simp add: Search_run_def demo_engine_tree bt deref_set_def deref_tree_def ds rules tr
        del: One_nat_def)
qed


text \<open>
  The final pass on an internal neighbor matrix whose every entry is a position of the
  reference tree's old-from-new vector, over a tree type that rearranges its dataset.
  Let the search proper end with the rules object's state \<open>rules\<close> (matrices of \<open>k\<close>
  rows and one column per query point). When the engine owns the reference tree,
  column \<open>i\<close> of the internal neighbor matrix reaches the caller with every entry
  translated through \<^verbatim>\<open>oldFromNewReferences\<close>. In dual-tree mode of
  \<^verbatim>\<open>Search(querySet, ...)\<close>, where the engine builds the query tree, the neighbor and
  the distance column \<open>i\<close> are moreover placed at column \<^verbatim>\<open>oldFromNewQueries[i]\<close>; in
  \<^verbatim>\<open>Search(k, ...)\<close> the columns move through \<^verbatim>\<open>oldFromNewReferences\<close>, the query
  points being the reference points; in \<^verbatim>\<open>Search(queryTree, ...)\<close> the columns stay.
  Then the call returns, and with these matrices.
\<close>

lemma relocation_of_filled_slots:
  assumes "RearrangesDataset env"
  shows
    "(\<forall>nP dP rules tr oFNQ querySet' e'.
        Search_prepare env un e querySet k neighbors distances = (nP, dP) \<and>
        Search_run env e g querySet k nP dP = Inr (rules, tr, oFNQ, querySet', e') \<and>
        has_size k (n_cols querySet') (nbrs rules) \<and> has_size k (n_cols querySet') (dists rules) \<and>
        wf_mat neighbors \<and> wf_mat distances \<and>
        (treeOwner e \<longrightarrow> indexes_into (oldFromNewReferences e) (nbrs rules)) \<and>
        (\<not> singleMode e \<and> \<not> naive e \<longrightarrow> is_relocation (n_cols querySet') oFNQ) \<longrightarrow>
        (\<exists>out. Search env un e g querySet k neighbors distances = Returned out \<and>
           has_size k (n_cols querySet') (neighbors_out out) \<and>
           has_size k (n_cols querySet') (distances_out out) \<and>
           (\<forall>i<n_cols querySet'.
              cols (neighbors_out out) ! (if \<not> singleMode e \<and> \<not> naive e then unat (oFNQ ! i) else i)
                = (if treeOwner e
                   then map (\<lambda>v. oldFromNewReferences e ! unat v) (cols (nbrs rules) ! i)
                   else cols (nbrs rules) ! i) \<and>
              cols (distances_out out) ! (if \<not> singleMode e \<and> \<not> naive e then unat (oFNQ ! i) else i)
                = cols (dists rules) ! i))) \<and>
     (\<forall>refs nP dP rules tr e'.
        deref_set e = Inr refs \<and>
        Search_self_prepare env un e (n_cols refs) k neighbors distances = (nP, dP) \<and>
        Search_self_run env e k refs (RASearchRules env refs refs nP dP e True g) = Inr (rules, tr, e') \<and>
        has_size k (n_cols refs) (nbrs rules) \<and> has_size k (n_cols refs) (dists rules) \<and>
        wf_mat neighbors \<and> wf_mat distances \<and>
        (treeOwner e \<longrightarrow> is_relocation (n_cols refs) (oldFromNewReferences e) \<and>
                         indexes_into (oldFromNewReferences e) (nbrs rules)) \<longrightarrow>
        (\<exists>out. Search_self env un e g k neighbors distances = Returned out \<and>
           has_size k (n_cols refs) (neighbors_out out) \<and>
           has_size k (n_cols refs) (distances_out out) \<and>
           (\<forall>i<n_cols refs.
              cols (neighbors_out out) ! (if treeOwner e then unat (oldFromNewReferences e ! i) else i)
                = (if treeOwner e
                   then map (\<lambda>v. oldFromNewReferences e ! unat v) (cols (nbrs rules) ! i)
                   else cols (nbrs rules) ! i) \<and>
              cols (distances_out out) ! (if treeOwner e then unat (oldFromNewReferences e ! i) else i)
                = cols (dists rules) ! i))) \<and>
     (\<forall>refs rt nP d0 rules queryTree' rt'.
        \<not> singleMode e \<and> \<not> naive e \<and> deref_set e = Inr refs \<and> referenceTree e = Some rt \<and>
        Search_tree_prepare env un e queryTree k neighbors distances = (nP, d0) \<and>
        DualTraverse env queryTree rt (RASearchRules env refs (Dataset queryTree) nP d0 e False g)
          = (rules, queryTree', rt') \<and>
        has_size k (n_cols (Dataset queryTree)) (nbrs rules) \<and> wf_mat neighbors \<and>
        (treeOwner e \<longrightarrow> indexes_into (oldFromNewReferences e) (nbrs rules)) \<longrightarrow>
        (\<exists>out. Search_tree env un e g queryTree k neighbors distances = Returned out \<and>
           has_size k (n_cols (Dataset queryTree)) (neighbors_out out) \<and>
           distances_out out = dists rules \<and>
           (\<forall>i<n_cols (Dataset queryTree).
              cols (neighbors_out out) ! i
                = (if treeOwner e
                   then map (\<lambda>v. oldFromNewReferences e ! unat v) (cols (nbrs rules) ! i)
                   else cols (nbrs rules) ! i))))"
proof (intro conjI allI impI)
  fix nP dP rules tr oFNQ querySet' e'
  assume h: "Search_prepare env un e querySet k neighbors distances = (nP, dP) \<and>
        Search_run env e g querySet k nP dP = Inr (rules, tr, oFNQ, querySet', e') \<and>
        has_size k (n_cols querySet') (nbrs rules) \<and> has_size k (n_cols querySet') (dists rules) \<and>
        wf_mat neighbors \<and> wf_mat distances \<and>
        (treeOwner e \<longrightarrow> indexes_into (oldFromNewReferences e) (nbrs rules)) \<and>
        (\<not> singleMode e \<and> \<not> naive e \<longrightarrow> is_relocation (n_cols querySet') oFNQ)"
  have tD: "Search_tempD env e = (\<not> singleMode e \<and> \<not> naive e)"
    using assms by (simp add: Search_tempD_def)
  have "\<exists>out. Search env un e g querySet k neighbors distances = Returned out \<and>
           has_size k (n_cols querySet') (neighbors_out out) \<and>
           has_size k (n_cols querySet') (distances_out out) \<and>
           (\<forall>i<n_cols querySet'.
              cols (distances_out out) ! (if Search_tempD env e then unat (oFNQ ! i) else i)
                = cols (dists rules) ! i \<and>
              cols (neighbors_out out) ! (if Search_tempD env e then unat (oFNQ ! i) else i)
                = (if RearrangesDataset env \<and> treeOwner e
                   then map (\<lambda>v. oldFromNewReferences e ! unat v) (cols (nbrs rules) ! i)
                   else cols (nbrs rules) ! i)) \<and>
           calls out = tr \<and> querySet_out out = Some querySet' \<and> engine_out out = e' \<and>
           rng_out out = rng rules"
  proof (rule Search_relocates [where nP = nP and dP = dP])
    show "Search_prepare env un e querySet k neighbors distances = (nP, dP)" using h by blast
    show "Search_run env e g querySet k nP dP = Inr (rules, tr, oFNQ, querySet', e')" using h by blast
    show "has_size k (n_cols querySet') (nbrs rules)" using h by blast
    show "has_size k (n_cols querySet') (dists rules)" using h by blast
    show "wf_mat neighbors" using h by blast
    show "wf_mat distances" using h by blast
    show "is_relocation (n_cols querySet') oFNQ" if "Search_tempD env e" using h that tD by blast
    show "indexes_into (oldFromNewReferences e) (nbrs rules)" if "RearrangesDataset env \<and> treeOwner e"
      using h that by blast
  qed
  then show "\<exists>out. Search env un e g querySet k neighbors distances = Returned out \<and>
           has_size k (n_cols querySet') (neighbors_out out) \<and>
           has_size k (n_cols querySet') (distances_out out) \<and>
           (\<forall>i<n_cols querySet'.
              cols (neighbors_out out) ! (if \<not> singleMode e \<and> \<not> naive e then unat (oFNQ ! i) else i)
                = (if treeOwner e
                   then map (\<lambda>v. oldFromNewReferences e ! unat v) (cols (nbrs rules) ! i)
                   else cols (nbrs rules) ! i) \<and>
              cols (distances_out out) ! (if \<not> singleMode e \<and> \<not> naive e then unat (oFNQ ! i) else i)
                = cols (dists rules) ! i)"
    unfolding tD using assms by auto
next
  fix refs nP dP rules tr e'
  assume h: "deref_set e = Inr refs \<and>
        Search_self_prepare env un e (n_cols refs) k neighbors distances = (nP, dP) \<and>
        Search_self_run env e k refs (RASearchRules env refs refs nP dP e True g) = Inr (rules, tr, e') \<and>
        has_size k (n_cols refs) (nbrs rules) \<and> has_size k (n_cols refs) (dists rules) \<and>
        wf_mat neighbors \<and> wf_mat distances \<and>
        (treeOwner e \<longrightarrow> is_relocation (n_cols refs) (oldFromNewReferences e) \<and>
                         indexes_into (oldFromNewReferences e) (nbrs rules))"
  have "\<exists>out. Search_self env un e g k neighbors distances = Returned out \<and>
           has_size k (n_cols refs) (neighbors_out out) \<and>
           has_size k (n_cols refs) (distances_out out) \<and>
           (\<forall>i<n_cols refs.
              cols (distances_out out) !
                  (if treeOwner e \<and> RearrangesDataset env then unat (oldFromNewReferences e ! i) else i)
                = cols (dists rules) ! i \<and>
              cols (neighbors_out out) !
                  (if treeOwner e \<and> RearrangesDataset env then unat (oldFromNewReferences e ! i) else i)
                = (if treeOwner e \<and> RearrangesDataset env
                   then map (\<lambda>v. oldFromNewReferences e ! unat v) (cols (nbrs rules) ! i)
                   else cols (nbrs rules) ! i)) \<and>
           calls out = tr \<and> engine_out out = e' \<and> rng_out out = rng rules"
  proof (rule Search_self_relocates [where nP = nP and dP = dP])
    show "deref_set e = Inr refs" using h by blast
    show "Search_self_prepare env un e (n_cols refs) k neighbors distances = (nP, dP)" using h by blast
    show "Search_self_run env e k refs (RASearchRules env refs refs nP dP e True g) = Inr (rules, tr, e')"
      using h by blast
    show "has_size k (n_cols refs) (nbrs rules)" using h by blast
    show "has_size k (n_cols refs) (dists rules)" using h by blast
    show "wf_mat neighbors" using h by blast
    show "wf_mat distances" using h by blast
    show "is_relocation (n_cols refs) (oldFromNewReferences e) \<and>
          indexes_into (oldFromNewReferences e) (nbrs rules)" if "treeOwner e \<and> RearrangesDataset env"
      using h that by blast
  qed
  then show "\<exists>out. Search_self env un e g k neighbors distances = Returned out \<and>
           has_size k (n_cols refs) (neighbors_out out) \<and>
           has_size k (n_cols refs) (distances_out out) \<and>
           (\<forall>i<n_cols refs.
              cols (neighbors_out out) ! (if treeOwner e then unat (oldFromNewReferences e ! i) else i)
                = (if treeOwner e
                   then map (\<lambda>v. oldFromNewReferences e ! unat v) (cols (nbrs rules) ! i)
                   else cols (nbrs rules) ! i) \<and>
              cols (distances_out out) ! (if treeOwner e then unat (oldFromNewReferences e ! i) else i)
                = cols (dists rules) ! i)"
    using assms by auto
next
  fix refs rt nP d0 rules queryTree' rt'
  assume h: "\<not> singleMode e \<and> \<not> naive e \<and> deref_set e = Inr refs \<and> referenceTree e = Some rt \<and>
        Search_tree_prepare env un e queryTree k neighbors distances = (nP, d0) \<and>
        DualTraverse env queryTree rt (RASearchRules env refs (Dataset queryTree) nP d0 e False g)
          = (rules, queryTree', rt') \<and>
        has_size k (n_cols (Dataset queryTree)) (nbrs rules) \<and> wf_mat neighbors \<and>
        (treeOwner e \<longrightarrow> indexes_into (oldFromNewReferences e) (nbrs rules))"
  have "\<exists>out. Search_tree env un e g queryTree k neighbors distances = Returned out \<and>
           has_size k (n_cols (Dataset queryTree)) (neighbors_out out) \<and>
           distances_out out = dists rules \<and>
           (\<forall>i<n_cols (Dataset queryTree).
              cols (neighbors_out out) ! i
                = (if treeOwner e \<and> RearrangesDataset env
                   then map (\<lambda>v. oldFromNewReferences e ! unat v) (cols (nbrs rules) ! i)
                   else cols (nbrs rules) ! i)) \<and>
           queryTree_out out = Some queryTree' \<and> engine_out out = e\<lparr>referenceTree := Some rt'\<rparr>"
  proof (rule Search_tree_relocates [where rt = rt and refs = refs and nP = nP and ?d0.0 = d0])
    show "\<not> singleMode e" "\<not> naive e" using h by blast+
    show "deref_set e = Inr refs" using h by blast
    show "referenceTree e = Some rt" using h by blast
    show "Search_tree_prepare env un e queryTree k neighbors distances = (nP, d0)" using h by blast
    show "DualTraverse env queryTree rt (RASearchRules env refs (Dataset queryTree) nP d0 e False g)
          = (rules, queryTree', rt')" using h by blast
    show "has_size k (n_cols (Dataset queryTree)) (nbrs rules)" using h by blast
    show "wf_mat neighbors" using h by blast
    show "indexes_into (oldFromNewReferences e) (nbrs rules)" if "treeOwner e \<and> RearrangesDataset env"
      using h that by blast
  qed
  then show "\<exists>out. Search_tree env un e g queryTree k neighbors distances = Returned out \<and>
           has_size k (n_cols (Dataset queryTree)) (neighbors_out out) \<and>
           distances_out out = dists rules \<and>
           (\<forall>i<n_cols (Dataset queryTree).
              cols (neighbors_out out) ! i
                = (if treeOwner e
                   then map (\<lambda>v. oldFromNewReferences e ! unat v) (cols (nbrs rules) ! i)
                   else cols (nbrs rules) ! i))"
    using assms by auto
qed


lemma all_less_2: "(\<forall>i<2::nat. P i) = (P 0 \<and> P 1)"
  by (auto simp: less_2_cases_iff)

lemma mat_eqI:
  "has_size k n m \<Longrightarrow> length cs = n \<Longrightarrow> (\<And>i. i < n \<Longrightarrow> cols m ! i = cs ! i) \<Longrightarrow> m = Mat k cs"
  by (cases m) (auto simp: has_size_def n_cols_def intro: nth_equalityI)

lemma relocation_of_filled_slots_instance:
  "RearrangesDataset (demo_env True) \<and> treeOwner (demo_engine True False False) \<and>
   \<not> singleMode (demo_engine True False False) \<and> \<not> naive (demo_engine True False False) \<and>
   is_relocation (n_cols demo_queries) [1, 0] \<and>
   indexes_into (oldFromNewReferences (demo_engine True False False)) (Mat 1 [[1], [1]]) \<and>
   neighbors_of (Search (demo_env True) (demo_uninit 7) (demo_engine True False False) 0 demo_queries 1
      (Mat 0 []) (Mat 0 [])) = Some (Mat 1 [[2], [2]]) \<and>
   distances_of (Search (demo_env True) (demo_uninit 7) (demo_engine True False False) 0 demo_queries 1
      (Mat 0 []) (Mat 0 [])) = Some (Mat 1 [[1 / 2], [1]])"
proof -
  let ?e = "demo_engine True False False"
  let ?rules = "\<lparr> nbrs = Mat 1 [[1], [1]], dists = Mat 1 [[1], [1 / 2]],
          priv = (Mat 1 [[100], [2], [1], [0]], Mat 1 [[3], [3 / 2]], False), rng = 0 \<rparr>
        :: (real, real mat \<times> real mat \<times> bool, nat) rstate"
  have r: "RearrangesDataset (demo_env True)"
    by (simp add: demo_env_def)
  have e: "treeOwner ?e" "\<not> singleMode ?e" "\<not> naive ?e" "oldFromNewReferences ?e = [3, 2, 1, 0]"
    by (simp_all add: demo_engine_tree)
  have q: "is_relocation (n_cols demo_queries) [1, 0]"
    by (simp add: is_relocation_def)
  have ix: "indexes_into (oldFromNewReferences ?e) (Mat 1 [[1], [1]])"
    by (simp add: indexes_into_def e)
  have sz: "has_size 1 (n_cols demo_queries) (nbrs ?rules)" "has_size 1 (n_cols demo_queries) (dists ?rules)"
    by (simp_all add: has_size_def wf_mat_def n_cols_def demo_queries_def)
  have ix': "indexes_into (oldFromNewReferences ?e) (nbrs ?rules)"
    using ix by simp
  note T = relocation_of_filled_slots [OF r, of "demo_uninit 7" ?e demo_queries 1 "Mat 0 []"
      "Mat 0 []" 0, THEN conjunct1, rule_format,
      of "Mat 1 [[7], [7]]" "Mat 1 [[DBL_MAX], [DBL_MAX]]" ?rules
        "[CallDualTraverse (demo_tree 0 (Mat 1 [[3], [3 / 2]])) (demo_tree 0 (Mat 1 [[100], [2], [1], [0]]))]"
        "[1, 0]" demo_queries
        "?e\<lparr>referenceTree := Some (demo_tree 0 (Mat 1 [[100], [2], [1], [0]]))\<rparr>"]
  have "\<exists>out. Search (demo_env True) (demo_uninit 7) ?e 0 demo_queries 1 (Mat 0 []) (Mat 0 []) = Returned out \<and>
           has_size 1 (n_cols demo_queries) (neighbors_out out) \<and>
           has_size 1 (n_cols demo_queries) (distances_out out) \<and>
           (\<forall>i<n_cols demo_queries.
              cols (neighbors_out out) ! (if \<not> singleMode ?e \<and> \<not> naive ?e then unat ([1, 0 :: size_t] ! i) else i)
                = (if treeOwner ?e
                   then map (\<lambda>v. oldFromNewReferences ?e ! unat v) (cols (nbrs ?rules) ! i)
                   else cols (nbrs ?rules) ! i) \<and>
              cols (distances_out out) ! (if \<not> singleMode ?e \<and> \<not> naive ?e then unat ([1, 0 :: size_t] ! i) else i)
                = cols (dists ?rules) ! i)"
    using demo_prepare_dual demo_run_dual sz q ix'
    by (intro T conjI impI) (assumption | rule wf_mat_empty)+
  then obtain out where out:
    "Search (demo_env True) (demo_uninit 7) ?e 0 demo_queries 1 (Mat 0 []) (Mat 0 []) = Returned out"
    "has_size 1 2 (neighbors_out out)" "has_size 1 2 (distances_out out)"
    "cols (neighbors_out out) ! 1 = [2]" "cols (neighbors_out out) ! 0 = [2]"
    "cols (distances_out out) ! 1 = [1]" "cols (distances_out out) ! 0 = [1 / 2]"
    by (auto simp: e all_less_2)
  have "neighbors_out out = Mat 1 [[2], [2]]"
    using out(2) by (rule mat_eqI) (auto simp: less_2_cases_iff out(5) out(4) [unfolded One_nat_def])
  moreover have "distances_out out = Mat 1 [[1 / 2], [1]]"
    using out(3) by (rule mat_eqI) (auto simp: less_2_cases_iff out(7) out(6) [unfolded One_nat_def])
  ultimately show ?thesis
    using r e q ix out(1) by (simp add: neighbors_of_def distances_of_def)
qed

lemma demo_pair_engine_eq:
  "demo_pair_engine =
     \<lparr> oldFromNewReferences = [1, 0],
       referenceTree = Some (demo_tree 0 (Mat 1 [[1], [0]])),
       referenceSet = PtrTreeDataset,
       treeOwner = True, setOwner = False, naive = False, singleMode = False,
       tau = 1 / 2, alpha = 95 / 100, sampleAtLeaves = False, firstLeafExact = False,
       singleSampleLimit = 20, metric = () \<rparr>"
  by (simp add: demo_pair_engine_def RASearch_of_set_def demo_env_def BuildTree_def SpatialTree_ctor_def
      demo_pair_def n_cols_def upt_rec)

lemma demo_pair_set: "deref_set demo_pair_engine = Inr (Mat 1 [[1], [0]])"
  by (simp add: demo_pair_engine_eq deref_set_def deref_tree_def demo_tree_def)

lemma upt_2: "[0..<2] = [0, 1]"
  by (simp add: upt_rec)

lemma n_cols_2: "n_cols (Mat r [a, b]) = 2"
  by (simp add: n_cols_def)

lemma demo_pair_prepare:
  "Search_self_prepare (demo_env True) (demo_uninit 7) demo_pair_engine 2 2 (Mat 0 []) (Mat 0 [])
     = (Mat 2 [[- 1, - 1], [- 1, - 1]], Mat 2 [[DBL_MAX, DBL_MAX], [DBL_MAX, DBL_MAX]])"
  by (simp add: Search_self_prepare_def demo_env_def demo_pair_engine_eq set_size_def fill_mat_def
      n_cols_def upt_2)

lemma demo_pair_pairs:
  "fold (\<lambda>i. fold (demo_BaseCase i) [0..<2]) [0..<2]
     \<lparr> nbrs = Mat 2 [[- 1, - 1], [- 1, - 1]], dists = Mat 2 [[DBL_MAX, DBL_MAX], [DBL_MAX, DBL_MAX]],
       priv = (Mat 1 [[1], [0]], Mat 1 [[1], [0]], True), rng = g \<rparr>
   = \<lparr> nbrs = Mat 2 [[1, - 1], [0, - 1]], dists = Mat 2 [[1, DBL_MAX], [1, DBL_MAX]],
       priv = (Mat 1 [[1], [0]], Mat 1 [[1], [0]], True), rng = g \<rparr>"
  using DBL_MAX_big
  by (simp add: upt_rec demo_BaseCase_def demo_insert_def)

lemma demo_pair_traverse:
  "DualTraverseSelf (demo_env True) (demo_tree 0 (Mat 1 [[1], [0]]))
     \<lparr> nbrs = Mat 2 [[- 1, - 1], [- 1, - 1]], dists = Mat 2 [[DBL_MAX, DBL_MAX], [DBL_MAX, DBL_MAX]],
       priv = (Mat 1 [[1], [0]], Mat 1 [[1], [0]], True), rng = g \<rparr>
   = (\<lparr> nbrs = Mat 2 [[1, - 1], [0, - 1]], dists = Mat 2 [[1, DBL_MAX], [1, DBL_MAX]],
        priv = (Mat 1 [[1], [0]], Mat 1 [[1], [0]], True), rng = g \<rparr>,
      demo_bump (demo_tree 0 (Mat 1 [[1], [0]])))"
proof -
  have d: "Dataset (demo_tree 0 m) = m" for m :: "real mat"
    by (simp add: demo_tree_def)
  show ?thesis
    by (simp add: demo_env_def d n_cols_2 demo_pair_pairs del: One_nat_def)
qed

lemma demo_pair_map:
  "map_self [1, 0] (Mat 2 [[1, - 1], [0, - 1]]) (Mat 2 [[1, DBL_MAX], [1, DBL_MAX]])
     (Mat 2 [[7, 7], [7, 7]], Mat 2 [[0, 0], [0, 0 :: real]]) = Inl IndexOutOfBounds"
proof -
  have big: "\<not> unat (- 1 :: size_t) < 2"
    by (simp add: unsigned_minus_1_eq_mask mask_eq_exp_minus_1)
  show ?thesis
    by (simp add: map_self_def n_cols_2 upt_2 vec_at_def col_of_def set_col_def elem_at_def
        set_elem_def big big [unfolded numeral_2_eq_2])
qed

text \<open>
  Claim C1 says that every \<^verbatim>\<open>Search\<close> call over a tree type that rearranges its
  dataset hands the caller results keyed by original indices. The final pass translates
  every slot of the internal neighbor matrix through \<^verbatim>\<open>oldFromNewReferences\<close>, also a
  slot for which the search found no neighbor: such a slot holds the filler
  \<^verbatim>\<open>size_t() - 1\<close> (in \<^verbatim>\<open>Search(querySet, ...)\<close>, whatever the memory held), which is
  no position of the vector. With two reference points, a rearranging tree built by the
  engine and \<open>k = 2\<close>, \<^verbatim>\<open>Search(k, neighbors, distances)\<close> finds one neighbor for each
  point and leaves the second slot of each column at the filler; the final pass then
  reads \<^verbatim>\<open>oldFromNewReferences\<close> at \<open>2^64 - 1\<close>, outside the vector, and the caller
  receives no results.
\<close>

theorem Search_self_reads_map_at_filler:
  "Search_self (demo_env True) (demo_uninit 7) demo_pair_engine 0 2 (Mat 0 []) (Mat 0 [])
     = Failed IndexOutOfBounds"
proof -
  have rules: "RASearchRules (demo_env True) refs qs nb dd e same g =
                 \<lparr> nbrs = nb, dists = dd, priv = (refs, qs, same), rng = g \<rparr>" for refs qs nb dd e same g
    by (simp add: demo_env_def)
  have e: "\<not> naive demo_pair_engine" "\<not> singleMode demo_pair_engine" "treeOwner demo_pair_engine"
    "oldFromNewReferences demo_pair_engine = [1, 0]"
    "deref_tree demo_pair_engine = Inr (demo_tree 0 (Mat 1 [[1], [0]]))"
    by (simp_all add: demo_pair_engine_eq deref_tree_def)
  have r: "RearrangesDataset (demo_env True)"
    by (simp add: demo_env_def)
  have run: "Search_self_run (demo_env True) demo_pair_engine 2 (Mat 1 [[1], [0]])
      \<lparr> nbrs = Mat 2 [[- 1, - 1], [- 1, - 1]], dists = Mat 2 [[DBL_MAX, DBL_MAX], [DBL_MAX, DBL_MAX]],
        priv = (Mat 1 [[1], [0]], Mat 1 [[1], [0]], True), rng = 0 \<rparr>
    = Inr (\<lparr> nbrs = Mat 2 [[1, - 1], [0, - 1]], dists = Mat 2 [[1, DBL_MAX], [1, DBL_MAX]],
             priv = (Mat 1 [[1], [0]], Mat 1 [[1], [0]], True), rng = 0 \<rparr>,
           [CallDualTraverse (demo_tree 0 (Mat 1 [[1], [0]])) (demo_tree 0 (Mat 1 [[1], [0]]))],
           demo_pair_engine\<lparr>referenceTree := Some (demo_bump (demo_tree 0 (Mat 1 [[1], [0]])))\<rparr>)"
    by (simp add: Search_self_run_def e demo_pair_traverse del: One_nat_def)
  have sz: "set_size (raw_idx (demo_uninit 7) 2) 2 2 (Mat 0 []) = Mat 2 [[7, 7], [7, 7]]"
    "set_size (raw_dbl (demo_uninit 7) 3) 2 2 (Mat 0 []) = Mat 2 [[0, 0], [0, 0 :: real]]"
    by (simp_all add: set_size_def demo_uninit_def n_cols_def upt_2)
  show ?thesis
    by (simp add: Search_self_def demo_pair_set n_cols_2 demo_pair_prepare rules run e r sz demo_pair_map
        del: One_nat_def)
qed


section \<open>The output matrices before the search\<close>

lemma fill_set_size:
  assumes "wf_mat m"
  shows "fill_mat v (set_size raw k n m) = Mat k (replicate n (replicate k v))"
proof (cases "n_rows m = k \<and> n_cols m = n")
  case True
  have "map (map (\<lambda>_. v)) (cols m) = replicate n (replicate k v)"
    using assms True
    by (intro nth_equalityI) (auto simp: wf_mat_def n_cols_def list_all_length map_replicate_const)
  then show ?thesis
    using True by (simp add: set_size_def fill_mat_def)
next
  case False
  then show ?thesis
    by (auto simp: set_size_def fill_mat_def n_cols_def comp_def map_replicate_const)
qed

lemma Search_prepare_sized:
  assumes "wf_mat neighbors" "wf_mat distances"
  shows "has_size k (n_cols querySet) (fst (Search_prepare env un e querySet k neighbors distances))"
    and "snd (Search_prepare env un e querySet k neighbors distances)
           = Mat k (replicate (n_cols querySet) (replicate k (WorstDistance env)))"
  using assms
  by (auto simp: Search_prepare_def fill_set_size wf_mat_empty intro!: has_size_set_size)

lemma Search_tree_prepare_filled:
  assumes "wf_mat neighbors" "wf_mat distances"
  shows "Search_tree_prepare env un e queryTree k neighbors distances =
           (Mat k (replicate (n_cols (Dataset queryTree)) (replicate k (0 - 1))),
            Mat k (replicate (n_cols (Dataset queryTree)) (replicate k (WorstDistance env))))"
  using assms by (simp add: Search_tree_prepare_def fill_set_size wf_mat_empty)

lemma Search_self_prepare_filled:
  assumes "wf_mat neighbors" "wf_mat distances"
  shows "Search_self_prepare env un e n k neighbors distances =
           (Mat k (replicate n (replicate k (0 - 1))),
            Mat k (replicate n (replicate k (WorstDistance env))))"
  using assms by (simp add: Search_self_prepare_def fill_set_size wf_mat_empty)


lemma demo_one_engine_eq:
  "demo_one_engine =
     \<lparr> oldFromNewReferences = [], referenceTree = None, referenceSet = PtrMatrix (Mat 1 [[0]]),
       treeOwner = False, setOwner = False, naive = True, singleMode = False,
       tau = 1 / 2, alpha = 95 / 100, sampleAtLeaves = False, firstLeafExact = False,
       singleSampleLimit = 20, metric = () \<rparr>"
  by (simp add: demo_one_engine_def RASearch_of_set_def)

lemma demo_one_prepare:
  "Search_prepare (demo_env False) un demo_one_engine (Mat 1 [[3 / 2]]) 2 (Mat 2 [[x, x']]) (Mat 0 [])
     = (Mat 2 [[x, x']], Mat 2 [[DBL_MAX, DBL_MAX]])"
  by (simp add: Search_prepare_def Search_tempN_def Search_tempD_def demo_env_def set_size_def
      fill_mat_def n_cols_def upt_rec)

lemma demo_one_prepare_raw:
  "Search_prepare (demo_env False) (demo_uninit x) demo_one_engine (Mat 1 [[3 / 2]]) 2 (Mat 0 []) (Mat 0 [])
     = (Mat 2 [[x, x]], Mat 2 [[DBL_MAX, DBL_MAX]])"
  by (simp add: Search_prepare_def Search_tempN_def Search_tempD_def demo_env_def set_size_def
      fill_mat_def n_cols_def upt_rec demo_uninit_def)

lemma demo_one_BaseCase:
  "demo_BaseCase 0 0 \<lparr> nbrs = Mat 2 [[x, x']], dists = Mat 2 [[DBL_MAX, DBL_MAX]],
       priv = (Mat 1 [[0]], Mat 1 [[3 / 2]], False), rng = g \<rparr>
   = \<lparr> nbrs = Mat 2 [[0, x]], dists = Mat 2 [[3 / 2, DBL_MAX]],
       priv = (Mat 1 [[0]], Mat 1 [[3 / 2]], False), rng = g \<rparr>"
  using DBL_MAX_big by (simp add: demo_BaseCase_def demo_insert_def Let_def)

lemma demo_one_run:
  "Search_run (demo_env False) demo_one_engine 0 (Mat 1 [[3 / 2]]) 2 (Mat 2 [[x, x']])
     (Mat 2 [[DBL_MAX, DBL_MAX]])
   = Inr (\<lparr> nbrs = Mat 2 [[0, x]], dists = Mat 2 [[3 / 2, DBL_MAX]],
            priv = (Mat 1 [[0]], Mat 1 [[3 / 2]], False), rng = 1 \<rparr>,
          [CallBaseCase 0 0], [], Mat 1 [[3 / 2]], demo_one_engine)"
proof -
  have nc: "n_cols (Mat r [a]) = 1" for r and a :: "real list"
    by (simp add: n_cols_def)
  have smp: "ObtainDistinctSamples (demo_env False) (MinimumSamplesReqd (demo_env False) 1 2 t a) 1 g
               = ([0], g + 1)" for t a g
    by (simp add: demo_env_def)
  have u: "[0..<1] = [0::nat]"
    by simp
  have rules: "RASearchRules (demo_env False) refs qs nb dd e same g =
                 \<lparr> nbrs = nb, dists = dd, priv = (refs, qs, same), rng = g \<rparr>" for refs qs nb dd e same g
    by (simp add: demo_env_def)
  have bc: "BaseCase (demo_env False) = demo_BaseCase"
    by (simp add: demo_env_def)
  show ?thesis
    unfolding Search_run_def
    by (simp add: demo_one_engine_eq [symmetric] del: One_nat_def)
       (simp add: demo_one_engine_eq deref_set_def nc smp rules call_BaseCase_def bc demo_one_BaseCase u
          del: One_nat_def)
qed

lemma demo_one_Search:
  "Search (demo_env False) un demo_one_engine 0 (Mat 1 [[3 / 2]]) 2 (Mat 2 [[x, x']]) (Mat 0 []) =
     Returned \<lparr> neighbors_out = Mat 2 [[0, x]], distances_out = Mat 2 [[3 / 2, DBL_MAX]],
                querySet_out = Some (Mat 1 [[3 / 2]]), queryTree_out = None,
                engine_out = demo_one_engine, rng_out = 1, calls = [CallBaseCase 0 0] \<rparr>"
proof -
  have fin: "Search_finish (demo_env False) un demo_one_engine k n ofn a b c d = Inr (c, d)" for k n ofn a b c d
    by (simp add: Search_finish_def demo_env_def)
  have t: "\<not> Search_tempN (demo_env False) demo_one_engine" "\<not> Search_tempD (demo_env False) demo_one_engine"
    by (simp_all add: Search_tempN_def Search_tempD_def demo_env_def)
  show ?thesis
    by (simp add: Search_def demo_one_prepare demo_one_run fin t del: One_nat_def)
qed

lemma demo_one_Search_raw:
  "Search (demo_env False) (demo_uninit x) demo_one_engine 0 (Mat 1 [[3 / 2]]) 2 (Mat 0 []) (Mat 0 []) =
     Returned \<lparr> neighbors_out = Mat 2 [[0, x]], distances_out = Mat 2 [[3 / 2, DBL_MAX]],
                querySet_out = Some (Mat 1 [[3 / 2]]), queryTree_out = None,
                engine_out = demo_one_engine, rng_out = 1, calls = [CallBaseCase 0 0] \<rparr>"
proof -
  have fin: "Search_finish (demo_env False) un demo_one_engine k n ofn a b c d = Inr (c, d)" for un k n ofn a b c d
    by (simp add: Search_finish_def demo_env_def)
  have t: "\<not> Search_tempN (demo_env False) demo_one_engine" "\<not> Search_tempD (demo_env False) demo_one_engine"
    by (simp_all add: Search_tempN_def Search_tempD_def demo_env_def)
  show ?thesis
    by (simp add: Search_def demo_one_prepare_raw demo_one_run fin t del: One_nat_def)
qed


text \<open>
  Claim C3, as the code has it. In every \<^verbatim>\<open>Search\<close> entry point the two matrices the
  rules object is built over have \<open>k\<close> rows and one column per query point, and the
  distance matrix is filled with \<^verbatim>\<open>SortPolicy::WorstDistance()\<close>, before the rules object
  exists and so before any traversal or base case. The query-tree entry point and the
  entry point without a query set also fill the neighbor matrix, with
  \<^verbatim>\<open>size_t() - 1\<close>. Hence a distance slot that the search leaves as it was prepared
  still holds the worst distance in the caller's matrix when the call returns, at the
  column the final pass moves it to. (The caller's matrices are well-formed Armadillo
  matrices; the other hypotheses are those of claim C1.)
\<close>

theorem distances_prefilled_with_worst:
  assumes "wf_mat neighbors" and "wf_mat distances"
  shows
    "has_size k (n_cols querySet) (fst (Search_prepare env un e querySet k neighbors distances)) \<and>
     snd (Search_prepare env un e querySet k neighbors distances)
       = Mat k (replicate (n_cols querySet) (replicate k (WorstDistance env))) \<and>
     Search_tree_prepare env un e queryTree k neighbors distances
       = (Mat k (replicate (n_cols (Dataset queryTree)) (replicate k (0 - 1))),
          Mat k (replicate (n_cols (Dataset queryTree)) (replicate k (WorstDistance env)))) \<and>
     Search_self_prepare env un e n k neighbors distances
       = (Mat k (replicate n (replicate k (0 - 1))),
          Mat k (replicate n (replicate k (WorstDistance env)))) \<and>
     (\<forall>nP dP rules tr oFNQ querySet' e' i j.
        Search_prepare env un e querySet k neighbors distances = (nP, dP) \<and>
        Search_run env e g querySet k nP dP = Inr (rules, tr, oFNQ, querySet', e') \<and>
        has_size k (n_cols querySet') (nbrs rules) \<and> has_size k (n_cols querySet') (dists rules) \<and>
        (RearrangesDataset env \<and> treeOwner e \<longrightarrow> indexes_into (oldFromNewReferences e) (nbrs rules)) \<and>
        (Search_tempD env e \<longrightarrow> is_relocation (n_cols querySet') oFNQ) \<and>
        i < n_cols querySet' \<and> i < n_cols querySet \<and> j < k \<and>
        cols (dists rules) ! i ! j = cols dP ! i ! j \<longrightarrow>
        (\<exists>out. Search env un e g querySet k neighbors distances = Returned out \<and>
           cols (distances_out out) ! (if Search_tempD env e then unat (oFNQ ! i) else i) ! j
             = WorstDistance env)) \<and>
     (\<forall>refs nP dP rules tr e' i j.
        deref_set e = Inr refs \<and>
        Search_self_prepare env un e (n_cols refs) k neighbors distances = (nP, dP) \<and>
        Search_self_run env e k refs (RASearchRules env refs refs nP dP e True g) = Inr (rules, tr, e') \<and>
        has_size k (n_cols refs) (nbrs rules) \<and> has_size k (n_cols refs) (dists rules) \<and>
        (treeOwner e \<and> RearrangesDataset env \<longrightarrow>
           is_relocation (n_cols refs) (oldFromNewReferences e) \<and>
           indexes_into (oldFromNewReferences e) (nbrs rules)) \<and>
        i < n_cols refs \<and> j < k \<and> cols (dists rules) ! i ! j = cols dP ! i ! j \<longrightarrow>
        (\<exists>out. Search_self env un e g k neighbors distances = Returned out \<and>
           cols (distances_out out) !
               (if treeOwner e \<and> RearrangesDataset env then unat (oldFromNewReferences e ! i) else i) ! j
             = WorstDistance env)) \<and>
     (\<forall>refs rt nP d0 rules queryTree' rt' i j.
        \<not> singleMode e \<and> \<not> naive e \<and> deref_set e = Inr refs \<and> referenceTree e = Some rt \<and>
        Search_tree_prepare env un e queryTree k neighbors distances = (nP, d0) \<and>
        DualTraverse env queryTree rt (RASearchRules env refs (Dataset queryTree) nP d0 e False g)
          = (rules, queryTree', rt') \<and>
        has_size k (n_cols (Dataset queryTree)) (nbrs rules) \<and>
        (treeOwner e \<and> RearrangesDataset env \<longrightarrow> indexes_into (oldFromNewReferences e) (nbrs rules)) \<and>
        i < n_cols (Dataset queryTree) \<and> j < k \<and> cols (dists rules) ! i ! j = cols d0 ! i ! j \<longrightarrow>
        (\<exists>out. Search_tree env un e g queryTree k neighbors distances = Returned out \<and>
           cols (distances_out out) ! i ! j = WorstDistance env))"
proof (intro conjI allI impI)
  show "has_size k (n_cols querySet) (fst (Search_prepare env un e querySet k neighbors distances))"
    using assms by (rule Search_prepare_sized)
  show "snd (Search_prepare env un e querySet k neighbors distances)
       = Mat k (replicate (n_cols querySet) (replicate k (WorstDistance env)))"
    using assms by (rule Search_prepare_sized)
  show "Search_tree_prepare env un e queryTree k neighbors distances
       = (Mat k (replicate (n_cols (Dataset queryTree)) (replicate k (0 - 1))),
          Mat k (replicate (n_cols (Dataset queryTree)) (replicate k (WorstDistance env))))"
    using assms by (rule Search_tree_prepare_filled)
  show "Search_self_prepare env un e n k neighbors distances
       = (Mat k (replicate n (replicate k (0 - 1))),
          Mat k (replicate n (replicate k (WorstDistance env))))"
    using assms by (rule Search_self_prepare_filled)
next
  fix nP dP rules tr oFNQ querySet' e' i j
  assume h: "Search_prepare env un e querySet k neighbors distances = (nP, dP) \<and>
        Search_run env e g querySet k nP dP = Inr (rules, tr, oFNQ, querySet', e') \<and>
        has_size k (n_cols querySet') (nbrs rules) \<and> has_size k (n_cols querySet') (dists rules) \<and>
        (RearrangesDataset env \<and> treeOwner e \<longrightarrow> indexes_into (oldFromNewReferences e) (nbrs rules)) \<and>
        (Search_tempD env e \<longrightarrow> is_relocation (n_cols querySet') oFNQ) \<and>
        i < n_cols querySet' \<and> i < n_cols querySet \<and> j < k \<and>
        cols (dists rules) ! i ! j = cols dP ! i ! j"
  have dP: "dP = Mat k (replicate (n_cols querySet) (replicate k (WorstDistance env)))"
    using Search_prepare_sized(2) [OF assms, where k = k and querySet = querySet and env = env
        and un = un and e = e] h by simp
  have w: "cols (dists rules) ! i ! j = WorstDistance env"
    using h dP by simp
  have "\<exists>out. Search env un e g querySet k neighbors distances = Returned out \<and>
           has_size k (n_cols querySet') (neighbors_out out) \<and>
           has_size k (n_cols querySet') (distances_out out) \<and>
           (\<forall>i<n_cols querySet'.
              cols (distances_out out) ! (if Search_tempD env e then unat (oFNQ ! i) else i)
                = cols (dists rules) ! i \<and>
              cols (neighbors_out out) ! (if Search_tempD env e then unat (oFNQ ! i) else i)
                = (if RearrangesDataset env \<and> treeOwner e
                   then map (\<lambda>v. oldFromNewReferences e ! unat v) (cols (nbrs rules) ! i)
                   else cols (nbrs rules) ! i)) \<and>
           calls out = tr \<and> querySet_out out = Some querySet' \<and> engine_out out = e' \<and>
           rng_out out = rng rules"
  proof (rule Search_relocates [where nP = nP and dP = dP])
    show "Search_prepare env un e querySet k neighbors distances = (nP, dP)" using h by blast
    show "Search_run env e g querySet k nP dP = Inr (rules, tr, oFNQ, querySet', e')" using h by blast
    show "has_size k (n_cols querySet') (nbrs rules)" using h by blast
    show "has_size k (n_cols querySet') (dists rules)" using h by blast
    show "wf_mat neighbors" "wf_mat distances" by fact+
    show "is_relocation (n_cols querySet') oFNQ" if "Search_tempD env e" using h that by blast
    show "indexes_into (oldFromNewReferences e) (nbrs rules)" if "RearrangesDataset env \<and> treeOwner e"
      using h that by blast
  qed
  then obtain out where out: "Search env un e g querySet k neighbors distances = Returned out"
    "\<forall>i<n_cols querySet'.
        cols (distances_out out) ! (if Search_tempD env e then unat (oFNQ ! i) else i)
          = cols (dists rules) ! i"
    by blast
  have "cols (distances_out out) ! (if Search_tempD env e then unat (oFNQ ! i) else i) ! j
          = WorstDistance env"
    using out(2) h w by simp
  with out(1) show "\<exists>out. Search env un e g querySet k neighbors distances = Returned out \<and>
           cols (distances_out out) ! (if Search_tempD env e then unat (oFNQ ! i) else i) ! j
             = WorstDistance env"
    by blast
next
  fix refs nP dP rules tr e' i j
  assume h: "deref_set e = Inr refs \<and>
        Search_self_prepare env un e (n_cols refs) k neighbors distances = (nP, dP) \<and>
        Search_self_run env e k refs (RASearchRules env refs refs nP dP e True g) = Inr (rules, tr, e') \<and>
        has_size k (n_cols refs) (nbrs rules) \<and> has_size k (n_cols refs) (dists rules) \<and>
        (treeOwner e \<and> RearrangesDataset env \<longrightarrow>
           is_relocation (n_cols refs) (oldFromNewReferences e) \<and>
           indexes_into (oldFromNewReferences e) (nbrs rules)) \<and>
        i < n_cols refs \<and> j < k \<and> cols (dists rules) ! i ! j = cols dP ! i ! j"
  have dP: "dP = Mat k (replicate (n_cols refs) (replicate k (WorstDistance env)))"
    using Search_self_prepare_filled [OF assms, where k = k and n = "n_cols refs" and env = env
        and un = un and e = e] h by simp
  have w: "cols (dists rules) ! i ! j = WorstDistance env"
    using h dP by simp
  have "\<exists>out. Search_self env un e g k neighbors distances = Returned out \<and>
           has_size k (n_cols refs) (neighbors_out out) \<and>
           has_size k (n_cols refs) (distances_out out) \<and>
           (\<forall>i<n_cols refs.
              cols (distances_out out) !
                  (if treeOwner e \<and> RearrangesDataset env then unat (oldFromNewReferences e ! i) else i)
                = cols (dists rules) ! i \<and>
              cols (neighbors_out out) !
                  (if treeOwner e \<and> RearrangesDataset env then unat (oldFromNewReferences e ! i) else i)
                = (if treeOwner e \<and> RearrangesDataset env
                   then map (\<lambda>v. oldFromNewReferences e ! unat v) (cols (nbrs rules) ! i)
                   else cols (nbrs rules) ! i)) \<and>
           calls out = tr \<and> engine_out out = e' \<and> rng_out out = rng rules"
  proof (rule Search_self_relocates [where nP = nP and dP = dP])
    show "deref_set e = Inr refs" using h by blast
    show "Search_self_prepare env un e (n_cols refs) k neighbors distances = (nP, dP)" using h by blast
    show "Search_self_run env e k refs (RASearchRules env refs refs nP dP e True g) = Inr (rules, tr, e')"
      using h by blast
    show "has_size k (n_cols refs) (nbrs rules)" using h by blast
    show "has_size k (n_cols refs) (dists rules)" using h by blast
    show "wf_mat neighbors" "wf_mat distances" by fact+
    show "is_relocation (n_cols refs) (oldFromNewReferences e) \<and>
          indexes_into (oldFromNewReferences e) (nbrs rules)" if "treeOwner e \<and> RearrangesDataset env"
      using h that by blast
  qed
  then obtain out where out: "Search_self env un e g k neighbors distances = Returned out"
    "\<forall>i<n_cols refs.
        cols (distances_out out) !
            (if treeOwner e \<and> RearrangesDataset env then unat (oldFromNewReferences e ! i) else i)
          = cols (dists rules) ! i"
    by blast
  have "cols (distances_out out) !
            (if treeOwner e \<and> RearrangesDataset env then unat (oldFromNewReferences e ! i) else i) ! j
          = WorstDistance env"
    using out(2) h w by simp
  with out(1) show "\<exists>out. Search_self env un e g k neighbors distances = Returned out \<and>
           cols (distances_out out) !
               (if treeOwner e \<and> RearrangesDataset env then unat (oldFromNewReferences e ! i) else i) ! j
             = WorstDistance env"
    by blast
next
  fix refs rt nP d0 rules queryTree' rt' i j
  assume h: "\<not> singleMode e \<and> \<not> naive e \<and> deref_set e = Inr refs \<and> referenceTree e = Some rt \<and>
        Search_tree_prepare env un e queryTree k neighbors distances = (nP, d0) \<and>
        DualTraverse env queryTree rt (RASearchRules env refs (Dataset queryTree) nP d0 e False g)
          = (rules, queryTree', rt') \<and>
        has_size k (n_cols (Dataset queryTree)) (nbrs rules) \<and>
        (treeOwner e \<and> RearrangesDataset env \<longrightarrow> indexes_into (oldFromNewReferences e) (nbrs rules)) \<and>
        i < n_cols (Dataset queryTree) \<and> j < k \<and> cols (dists rules) ! i ! j = cols d0 ! i ! j"
  have d0: "d0 = Mat k (replicate (n_cols (Dataset queryTree)) (replicate k (WorstDistance env)))"
    using Search_tree_prepare_filled [OF assms, where k = k and queryTree = queryTree and env = env
        and un = un and e = e] h by simp
  have w: "cols (dists rules) ! i ! j = WorstDistance env"
    using h d0 by simp
  have "\<exists>out. Search_tree env un e g queryTree k neighbors distances = Returned out \<and>
           has_size k (n_cols (Dataset queryTree)) (neighbors_out out) \<and>
           distances_out out = dists rules \<and>
           (\<forall>i<n_cols (Dataset queryTree).
              cols (neighbors_out out) ! i
                = (if treeOwner e \<and> RearrangesDataset env
                   then map (\<lambda>v. oldFromNewReferences e ! unat v) (cols (nbrs rules) ! i)
                   else cols (nbrs rules) ! i)) \<and>
           queryTree_out out = Some queryTree' \<and> engine_out out = e\<lparr>referenceTree := Some rt'\<rparr>"
  proof (rule Search_tree_relocates [where rt = rt and refs = refs and nP = nP and ?d0.0 = d0])
    show "\<not> singleMode e" "\<not> naive e" using h by blast+
    show "deref_set e = Inr refs" using h by blast
    show "referenceTree e = Some rt" using h by blast
    show "Search_tree_prepare env un e queryTree k neighbors distances = (nP, d0)" using h by blast
    show "DualTraverse env queryTree rt (RASearchRules env refs (Dataset queryTree) nP d0 e False g)
          = (rules, queryTree', rt')" using h by blast
    show "has_size k (n_cols (Dataset queryTree)) (nbrs rules)" using h by blast
    show "wf_mat neighbors" by fact
    show "indexes_into (oldFromNewReferences e) (nbrs rules)" if "treeOwner e \<and> RearrangesDataset env"
      using h that by blast
  qed
  then show "\<exists>out. Search_tree env un e g queryTree k neighbors distances = Returned out \<and>
           cols (distances_out out) ! i ! j = WorstDistance env"
    using w by auto
qed

theorem distances_prefilled_with_worst_witness:
  "wf_mat (Mat 0 [] :: size_t mat) \<and> wf_mat (Mat 0 [] :: real mat) \<and>
   Search_prepare (demo_env False) (demo_uninit 7) demo_one_engine (Mat 1 [[3 / 2]]) 2 (Mat 0 []) (Mat 0 [])
     = (Mat 2 [[7, 7]], Mat 2 [[DBL_MAX, DBL_MAX]]) \<and>
   (\<exists>out. Search (demo_env False) (demo_uninit 7) demo_one_engine 0 (Mat 1 [[3 / 2]]) 2 (Mat 0 []) (Mat 0 [])
             = Returned out \<and>
          cols (distances_out out) ! 0 ! 1 = WorstDistance (demo_env False))"
proof -
  let ?rules = "\<lparr> nbrs = Mat 2 [[0, 7]], dists = Mat 2 [[3 / 2, DBL_MAX]],
            priv = (Mat 1 [[0]], Mat 1 [[3 / 2]], False), rng = 1 \<rparr>
        :: (real, real mat \<times> real mat \<times> bool, nat) rstate"
  have wf: "wf_mat (Mat 0 [] :: size_t mat)" "wf_mat (Mat 0 [] :: real mat)"
    by (rule wf_mat_empty)+
  have sz: "has_size 2 (n_cols (Mat 1 [[3 / 2 :: real]])) (nbrs ?rules)"
    "has_size 2 (n_cols (Mat 1 [[3 / 2 :: real]])) (dists ?rules)"
    by (simp_all add: has_size_def wf_mat_def n_cols_def)
  have t: "\<not> Search_tempD (demo_env False) demo_one_engine" "\<not> RearrangesDataset (demo_env False)"
    by (simp_all add: Search_tempD_def demo_env_def)
  have slot: "cols (dists ?rules) ! 0 ! 1 = cols (Mat 2 [[DBL_MAX, DBL_MAX]]) ! 0 ! 1"
    by simp
  have i: "(0::nat) < n_cols (Mat 1 [[3 / 2 :: real]])" "(1::nat) < 2"
    by (simp_all add: n_cols_def)
  note T = distances_prefilled_with_worst [OF wf, where k = 2 and querySet = "Mat 1 [[3 / 2]]"
      and env = "demo_env False" and un = "demo_uninit 7" and e = demo_one_engine and g = 0]
  note U = T [THEN conjunct2, THEN conjunct2, THEN conjunct2, THEN conjunct2, THEN conjunct1, rule_format,
      of "Mat 2 [[7, 7]]" "Mat 2 [[DBL_MAX, DBL_MAX]]" ?rules "[CallBaseCase 0 0]" "[]" "Mat 1 [[3 / 2]]"
         demo_one_engine 0 1]
  have "\<exists>out. Search (demo_env False) (demo_uninit 7) demo_one_engine 0 (Mat 1 [[3 / 2]]) 2 (Mat 0 []) (Mat 0 [])
             = Returned out \<and>
          cols (distances_out out) ! (if Search_tempD (demo_env False) demo_one_engine
                                      then unat (([] :: size_t list) ! 0) else 0) ! 1
            = WorstDistance (demo_env False)"
    using demo_one_prepare_raw [of 7] demo_one_run [of 7 7] sz t slot i
    by (intro U conjI impI) (assumption | simp)+
  then show ?thesis
    using wf t demo_one_prepare_raw [of 7] by simp
qed

text \<open>
  Claim C3 as stated, that both matrices are filled with the sentinel, fails for the
  neighbor matrix of \<^verbatim>\<open>Search(querySet, k, neighbors, distances)\<close>, which is sized
  and not filled. A caller's 2 x 1 neighbor matrix holding 7 and 7 keeps its entries
  through \<^verbatim>\<open>set_size\<close>; with one reference point and \<open>k = 2\<close> the one base case
  writes the first slot only, and the second slot returns as 7.
\<close>

theorem neighbors_not_prefilled_counterexample:
  "fst (Search_prepare (demo_env False) (demo_uninit 0) demo_one_engine (Mat 1 [[3 / 2]]) 2
          (Mat 2 [[7, 7]]) (Mat 0 [])) = Mat 2 [[7, 7]] \<and>
   neighbors_of (Search (demo_env False) (demo_uninit 0) demo_one_engine 0 (Mat 1 [[3 / 2]]) 2
          (Mat 2 [[7, 7]]) (Mat 0 [])) = Some (Mat 2 [[0, 7]]) \<and>
   calls_of (Search (demo_env False) (demo_uninit 0) demo_one_engine 0 (Mat 1 [[3 / 2]]) 2
          (Mat 2 [[7, 7]]) (Mat 0 [])) = Some [CallBaseCase 0 0] \<and>
   (7 :: size_t) \<noteq> 0 - 1"
  by (simp add: demo_one_prepare demo_one_Search neighbors_of_def calls_of_def del: One_nat_def)

section \<open>Repeating a search\<close>

text \<open>
  Claim C8 says that two runs of the same entry point with the same random source,
  configuration, reference set and query set give the same neighbors and distances.
  For \<^verbatim>\<open>Search(querySet, k, neighbors, distances)\<close> the neighbors also depend on what
  the neighbor matrix held before the call (or on the contents of its new memory): the
  naive engine over one reference point, asked for \<open>k = 2\<close> neighbors of one query
  point, returns the second slot as it found it.
\<close>

theorem Search_outputs_depend_on_stale_neighbors:
  "neighbors_of (Search (demo_env False) (demo_uninit 0) demo_one_engine 0 (Mat 1 [[3 / 2]]) 2
          (Mat 2 [[7, 7]]) (Mat 0 [])) = Some (Mat 2 [[0, 7]]) \<and>
   neighbors_of (Search (demo_env False) (demo_uninit 0) demo_one_engine 0 (Mat 1 [[3 / 2]]) 2
          (Mat 2 [[8, 8]]) (Mat 0 [])) = Some (Mat 2 [[0, 8]]) \<and>
   neighbors_of (Search (demo_env False) (demo_uninit 7) demo_one_engine 0 (Mat 1 [[3 / 2]]) 2
          (Mat 0 []) (Mat 0 [])) = Some (Mat 2 [[0, 7]]) \<and>
   neighbors_of (Search (demo_env False) (demo_uninit 8) demo_one_engine 0 (Mat 1 [[3 / 2]]) 2
          (Mat 0 []) (Mat 0 [])) = Some (Mat 2 [[0, 8]])"
  by (simp add: demo_one_Search demo_one_Search_raw neighbors_of_def del: One_nat_def)

section \<open>The caller's point sets\<close>

lemma BuildTree_keeps_dataset:
  assumes "\<not> RearrangesDataset env \<or> TreeCtorMapping env = SpatialTree_ctor order shape"
  shows "snd (snd (BuildTree env dataset oldFromNew)) = dataset"
  using assms by (auto simp: BuildTree_def SpatialTree_ctor_def)

lemma Search_run_keeps_query:
  assumes "Search_run env e g querySet k nP dP = Inr (rules, tr, oFNQ, querySet', e')"
    and "naive e \<or> singleMode e \<or> \<not> RearrangesDataset env \<or>
         TreeCtorMapping env = SpatialTree_ctor order shape"
  shows "querySet' = querySet \<and> referenceSet e' = referenceSet e"
proof (cases "naive e \<or> singleMode e")
  case True
  then show ?thesis
    using assms(1)
    by (auto simp: Search_run_def bindE_def Let_def split: if_splits sum.splits prod.splits)
next
  case False
  then have c: "\<not> RearrangesDataset env \<or> TreeCtorMapping env = SpatialTree_ctor order shape"
    using assms(2) by blast
  obtain qt ofn q1 where bt: "BuildTree env querySet [] = (qt, ofn, q1)"
    by (cases "BuildTree env querySet []")
  have "q1 = querySet"
    using BuildTree_keeps_dataset [OF c, of querySet "[]"] bt by simp
  then show ?thesis
    using assms(1) False bt
    by (auto simp: Search_run_def bindE_def Let_def split: if_splits sum.splits prod.splits)
qed

lemma Search_keeps_query:
  assumes "Search env un e g querySet k neighbors distances = Returned out"
    and "naive e \<or> singleMode e \<or> \<not> RearrangesDataset env \<or>
         TreeCtorMapping env = SpatialTree_ctor order shape"
  shows "querySet_out out = Some querySet \<and> referenceSet (engine_out out) = referenceSet e"
proof -
  obtain nP dP where prep: "Search_prepare env un e querySet k neighbors distances = (nP, dP)"
    by (cases "Search_prepare env un e querySet k neighbors distances")
  from assms(1) prep obtain rules tr oFNQ querySet' e' where
    run: "Search_run env e g querySet k nP dP = Inr (rules, tr, oFNQ, querySet', e')"
    and out: "querySet_out out = Some querySet'" "engine_out out = e'"
    by (auto simp: Search_def split: sum.splits prod.splits)
  from Search_run_keeps_query [OF run assms(2)] out show ?thesis
    by simp
qed

text \<open>
  Claim C7. The engine leaves the caller's point sets as it found them. The only place
  where it hands a caller's matrix on by non-const reference is \<^verbatim>\<open>BuildTree\<close> for a
  tree type that rearranges its dataset, in the constructor from a reference matrix
  (unless naive) and in the dual-tree mode of \<^verbatim>\<open>Search(querySet, ...)\<close>. With the tree
  constructor of the spec, which works on a copy, the reference matrix after
  construction and the query matrix after a search that returns are the caller's
  matrices unchanged, entries and column order; in naive mode, in single-tree mode of
  \<^verbatim>\<open>Search\<close> and for a tree type that does not rearrange, this holds whatever the
  tree constructor does. The engine's \<^verbatim>\<open>referenceSet\<close> pointer is the same after a
  search.
\<close>

theorem caller_matrices_unchanged:
  "(nv \<or> \<not> RearrangesDataset env \<or> TreeCtorMapping env = SpatialTree_ctor order shape \<longrightarrow>
      snd (RASearch_of_set env referenceSetIn nv sm t a sl fl ssl mt) = referenceSetIn) \<and>
   (naive e \<or> singleMode e \<or> \<not> RearrangesDataset env \<or>
      TreeCtorMapping env = SpatialTree_ctor order shape \<longrightarrow>
      (\<forall>out. Search env un e g querySet k neighbors distances = Returned out \<longrightarrow>
         querySet_out out = Some querySet \<and> referenceSet (engine_out out) = referenceSet e))"
proof (intro conjI impI allI)
  assume c: "nv \<or> \<not> RearrangesDataset env \<or> TreeCtorMapping env = SpatialTree_ctor order shape"
  show "snd (RASearch_of_set env referenceSetIn nv sm t a sl fl ssl mt) = referenceSetIn"
  proof (cases nv)
    case True
    then show ?thesis by (simp add: RASearch_of_set_def)
  next
    case False
    then have "snd (snd (BuildTree env referenceSetIn [])) = referenceSetIn"
      using c by (intro BuildTree_keeps_dataset) blast
    then show ?thesis
      using False by (cases "BuildTree env referenceSetIn []") (simp add: RASearch_of_set_def Let_def)
  qed
next
  fix out
  assume c: "naive e \<or> singleMode e \<or> \<not> RearrangesDataset env \<or>
      TreeCtorMapping env = SpatialTree_ctor order shape"
    and s: "Search env un e g querySet k neighbors distances = Returned out"
  have r: "querySet_out out = Some querySet \<and> referenceSet (engine_out out) = referenceSet e"
    using s c by (rule Search_keeps_query)
  show "querySet_out out = Some querySet"
    using r by simp
  show "referenceSet (engine_out out) = referenceSet e"
    using r by simp
qed

lemma demo_Search_dual_returns:
  "\<exists>out. Search (demo_env True) (demo_uninit 7) (demo_engine True False False) 0 demo_queries 1
            (Mat 0 []) (Mat 0 []) = Returned out"
proof -
  let ?e = "demo_engine True False False"
  let ?rules = "\<lparr> nbrs = Mat 1 [[1], [1]], dists = Mat 1 [[1], [1 / 2]],
          priv = (Mat 1 [[100], [2], [1], [0]], Mat 1 [[3], [3 / 2]], False), rng = 0 \<rparr>
        :: (real, real mat \<times> real mat \<times> bool, nat) rstate"
  have sz: "has_size 1 (n_cols demo_queries) (nbrs ?rules)" "has_size 1 (n_cols demo_queries) (dists ?rules)"
    by (simp_all add: has_size_def wf_mat_def n_cols_def demo_queries_def)
  have q: "is_relocation (n_cols demo_queries) [1, 0]"
    by (simp add: is_relocation_def)
  have ix: "indexes_into (oldFromNewReferences ?e) (nbrs ?rules)"
    by (simp add: indexes_into_def demo_engine_tree)
  from Search_relocates [OF demo_prepare_dual demo_run_dual sz wf_mat_empty wf_mat_empty q ix]
  show ?thesis by blast
qed

theorem caller_matrices_unchanged_witness:
  "TreeCtorMapping (demo_env True) = SpatialTree_ctor (\<lambda>d. rev [0..<n_cols d]) (demo_tree 0) \<and>
   snd (RASearch_of_set (demo_env True) demo_refs False False (1 / 2) (95 / 100) False False 20 ())
     = demo_refs \<and>
   (\<exists>out. Search (demo_env True) (demo_uninit 7) (demo_engine True False False) 0 demo_queries 1
             (Mat 0 []) (Mat 0 []) = Returned out \<and>
          querySet_out out = Some demo_queries)"
proof -
  have c: "TreeCtorMapping (demo_env True) = SpatialTree_ctor (\<lambda>d. rev [0..<n_cols d]) (demo_tree 0)"
    by (simp add: demo_env_def)
  obtain out where out: "Search (demo_env True) (demo_uninit 7) (demo_engine True False False) 0
      demo_queries 1 (Mat 0 []) (Mat 0 []) = Returned out"
    using demo_Search_dual_returns by blast
  from caller_matrices_unchanged [of False "demo_env True" "\<lambda>d. rev [0..<n_cols d]" "demo_tree 0"
      demo_refs False "1 / 2" "95 / 100" False False 20 "()" "demo_engine True False False"
      "demo_uninit 7" 0 demo_queries 1 "Mat 0 []" "Mat 0 []"] c out
  show ?thesis by blast
qed

section \<open>Reseeding an empty cluster\<close>


































end
